theory Spec2Isabelle
  imports Complex_Main "HOL-Library.Monad_Syntax" "HOL-Library.Signed_Division"
    "HOL-Library.Log_Nat"
begin

section \<open>Machine integers and clock readings\<close>

text \<open>
  Go's \<open>int\<close> is a 64-bit two's complement integer on the platforms the proxy is built
  for. Values are modelled as \<open>int\<close>; an addition whose operands come from the caller
  or from the configuration is followed by \<open>wrap64\<close>. Counters that are only ever
  incremented by one per call (request counts, connection counts) are left unwrapped:
  they cannot reach \<open>2 ^ 63\<close> in a run.
\<close>

definition wrap64 :: "int \<Rightarrow> int" where
  "wrap64 x = (x + 2 ^ 63) mod 2 ^ 64 - 2 ^ 63"

text \<open>
  A \<open>time.Time\<close> is modelled as an instant in nanoseconds, a \<open>time.Duration\<close> as a
  number of nanoseconds. \<open>Time.Sub\<close> saturates at the ends of the \<open>Duration\<close> range.
  Every call of \<open>time.Now()\<close> inside one operation is modelled by the single instant
  \<open>now\<close> that the operation receives.
\<close>

type_synonym time = int
type_synonym duration = int

definition time_Sub :: "time \<Rightarrow> time \<Rightarrow> duration" where
  "time_Sub t u = max (- (2 ^ 63)) (min (2 ^ 63 - 1) (t - u))"

definition Second :: duration where
  "Second = 1000000000"

definition Hour :: duration where
  "Hour = 3600 * Second"

section \<open>Floating point\<close>

text \<open>
  A \<open>float64\<close> value is modelled as the rational number it denotes. Every arithmetic
  operation of the source is the exact operation followed by \<open>float64_round\<close>, the
  rounding of IEEE-754 binary64 to the nearest value with ties to the even significand:
  53 significant bits, and multiples of \<open>2 ^ -1074\<close> below \<open>2 ^ -1022\<close> (gradual
  underflow). Operations are rounded one by one (no fused multiply-add), as on amd64.
  A decimal literal of the source denotes the float64 value nearest to it, which is
  \<open>float64_round\<close> of the decimal; 0, 0.5, 1.0 and 1.5 are float64 values themselves.

  Not represented: overflow to an infinity (the exponent is unbounded above, so a result
  of magnitude \<open>2 ^ 1024\<close> or more stands for an infinity), NaN and the sign of zero.
  A division by zero yields 0 here and an infinity or NaN in Go; the divisors of the
  source are request counts after their increment, which are positive.
\<close>

type_synonym float64 = rat

definition round_half_even :: "rat \<Rightarrow> int" where
  "round_half_even x =
     (let f = \<lfloor>x\<rfloor>; r = x - of_int f
      in if r < 1 / 2 then f
         else if 1 / 2 < r then f + 1
         else if even f then f else f + 1)"

text \<open>The binary exponent of a positive rational: \<open>2 ^ ilog2 x \<le> x < 2 ^ (ilog2 x + 1)\<close>.\<close>

definition ilog2 :: "rat \<Rightarrow> int" where
  "ilog2 x = (if 1 \<le> x then bitlen \<lfloor>x\<rfloor> - 1 else - bitlen (\<lceil>1 / x\<rceil> - 1))"

text \<open>The distance between neighbouring float64 values around \<open>x\<close>.\<close>

definition float64_quantum :: "rat \<Rightarrow> rat" where
  "float64_quantum x = 2 powi (max (ilog2 \<bar>x\<bar>) (- 1022) - 52)"

definition float64_round :: "rat \<Rightarrow> float64" where
  "float64_round x =
     (if x = 0 then 0
      else of_int (round_half_even (x / float64_quantum x)) * float64_quantum x)"

definition is_float64 :: "rat \<Rightarrow> bool" where
  "is_float64 x = (float64_round x = x)"

definition f64_mul :: "float64 \<Rightarrow> float64 \<Rightarrow> float64" where
  "f64_mul x y = float64_round (x * y)"

definition f64_div :: "float64 \<Rightarrow> float64 \<Rightarrow> float64" where
  "f64_div x y = float64_round (x / y)"

definition f64_add :: "float64 \<Rightarrow> float64 \<Rightarrow> float64" where
  "f64_add x y = float64_round (x + y)"

definition f64_sub :: "float64 \<Rightarrow> float64 \<Rightarrow> float64" where
  "f64_sub x y = float64_round (x - y)"

text \<open>The conversion \<open>float64(n)\<close> of an integer rounds as every operation does.\<close>

definition float64_of_int :: "int \<Rightarrow> float64" where
  "float64_of_int n = float64_round (of_int n)"

text \<open>
  The conversion \<open>int(x)\<close> truncates towards zero. When the truncated value does not
  fit a 64-bit integer the result is \<open>- 2 ^ 63\<close>, as on amd64 (the language
  specification leaves it to the implementation).
\<close>

definition int_of_float64 :: "float64 \<Rightarrow> int" where
  "int_of_float64 x =
     (let t = (if 0 \<le> x then \<lfloor>x\<rfloor> else \<lceil>x\<rceil>)
      in if - (2 ^ 63) \<le> t \<and> t < 2 ^ 63 then t else - (2 ^ 63))"

section \<open>The read/write lock of the reputation store\<close>

text \<open>
  Every exported operation of the firewall acquires the lock of its component on entry
  and releases it before it returns. Where the body of an operation calls no other
  operation that takes the same lock, the lock has no influence on the result of a
  call and the model leaves it out. The reputation store is the exception:
  \<open>UpdateReputation\<close> calls \<open>GetReputation\<close> while it holds \<open>ReputationMutex\<close>, so
  for this store the lock is part of the state.

  \<open>sync.RWMutex\<close> is not reentrant. An operation runs in one goroutine; the value
  \<open>None\<close> of a lock operation means that this goroutine does not get past the call
  (it waits for a lock that is held, or the runtime stops on unlocking a lock that is
  not held).
\<close>

datatype rwmutex = Unlocked | RLocked nat | WLocked

fun rw_Lock :: "rwmutex \<Rightarrow> rwmutex option" where
  "rw_Lock Unlocked = Some WLocked"
| "rw_Lock (RLocked n) = None"
| "rw_Lock WLocked = None"

fun rw_Unlock :: "rwmutex \<Rightarrow> rwmutex option" where
  "rw_Unlock WLocked = Some Unlocked"
| "rw_Unlock (RLocked n) = None"
| "rw_Unlock Unlocked = None"

text \<open>\<open>RLocked n\<close>: \<open>n + 1\<close> readers hold the lock.\<close>

fun rw_RLock :: "rwmutex \<Rightarrow> rwmutex option" where
  "rw_RLock Unlocked = Some (RLocked 0)"
| "rw_RLock (RLocked n) = Some (RLocked (Suc n))"
| "rw_RLock WLocked = None"

fun rw_RUnlock :: "rwmutex \<Rightarrow> rwmutex option" where
  "rw_RUnlock (RLocked 0) = Some Unlocked"
| "rw_RUnlock (RLocked (Suc n)) = Some (RLocked n)"
| "rw_RUnlock Unlocked = None"
| "rw_RUnlock WLocked = None"

section \<open>Reputation store\<close>

text \<open>
  The package variables that the configuration loader assigns are fields of a
  configuration record; the ones no code assigns are constants.
  \<open>SaveReputationToDB\<close> writes to the BoltDB file only and discards its errors; it
  does not touch \<open>ReputationScores\<close> and is not modelled.
\<close>

record reputation_config =
  ReputationEnabled :: bool
  ReputationMinScore :: int
  ReputationPersistToDB :: bool
  ReputationDecayInterval :: int

definition default_reputation_config :: reputation_config where
  "default_reputation_config =
     \<lparr>ReputationEnabled = True, ReputationMinScore = 20,
      ReputationPersistToDB = True, ReputationDecayInterval = 3600\<rparr>"

definition DefaultReputationScore :: int where
  "DefaultReputationScore = 50"

definition MaxReputationScore :: int where
  "MaxReputationScore = 100"

definition MinReputationScore :: int where
  "MinReputationScore = 0"

record ReputationData =
  IP :: string
  Score :: int
  LastUpdated :: time
  LastDecay :: time
  TotalRequests :: int
  FailedChallenges :: int
  RateLimitHits :: int

text \<open>
  \<open>ReputationScores\<close> maps an IP to a pointer to its record; every record is
  allocated for one key only, so a map from keys to records has the same behaviour.
\<close>

record reputation_state =
  ReputationScores :: "string \<rightharpoonup> ReputationData"
  ReputationMutex :: rwmutex

definition initial_reputation_state :: reputation_state where
  "initial_reputation_state = \<lparr>ReputationScores = Map.empty, ReputationMutex = Unlocked\<rparr>"

definition new_ReputationData :: "time \<Rightarrow> string \<Rightarrow> ReputationData" where
  "new_ReputationData now ip =
     \<lparr>IP = ip, Score = DefaultReputationScore, LastUpdated = now, LastDecay = now,
      TotalRequests = 0, FailedChallenges = 0, RateLimitHits = 0\<rparr>"

definition GetReputation ::
  "time \<Rightarrow> string \<Rightarrow> reputation_state \<Rightarrow> (ReputationData \<times> reputation_state) option" where
  "GetReputation now ip st =
     do {
       m1 \<leftarrow> rw_RLock (ReputationMutex st);
       let found = ReputationScores st ip;
       m2 \<leftarrow> rw_RUnlock m1;
       (case found of
          Some data \<Rightarrow> Some (data, st\<lparr>ReputationMutex := m2\<rparr>)
        | None \<Rightarrow>
            do {
              m3 \<leftarrow> rw_Lock m2;
              let (data, scores) =
                (case ReputationScores st ip of
                   Some d \<Rightarrow> (d, ReputationScores st)
                 | None \<Rightarrow> (new_ReputationData now ip,
                             (ReputationScores st)(ip \<mapsto> new_ReputationData now ip)));
              m4 \<leftarrow> rw_Unlock m3;
              Some (data, st\<lparr>ReputationScores := scores, ReputationMutex := m4\<rparr>)
            })
     }"

definition UpdateReputation ::
  "reputation_config \<Rightarrow> time \<Rightarrow> string \<Rightarrow> int \<Rightarrow> string \<Rightarrow> reputation_state
     \<Rightarrow> reputation_state option" where
  "UpdateReputation cfg now ip scoreChange reason st =
     (if \<not> ReputationEnabled cfg then Some st
      else
        do {
          m \<leftarrow> rw_Lock (ReputationMutex st);
          (data, st1) \<leftarrow> GetReputation now ip (st\<lparr>ReputationMutex := m\<rparr>);
          let s1 = wrap64 (Score data + scoreChange);
          let s2 = (if s1 > MaxReputationScore then MaxReputationScore else s1);
          let s3 = (if s2 < MinReputationScore then MinReputationScore else s2);
          let data1 = data\<lparr>Score := s3, LastUpdated := now,
                            TotalRequests := TotalRequests data + 1\<rparr>;
          let data2 =
            (if reason = ''challenge_failure''
               then data1\<lparr>FailedChallenges := FailedChallenges data1 + 1\<rparr>
             else if reason = ''rate_limit_hit''
               then data1\<lparr>RateLimitHits := RateLimitHits data1 + 1\<rparr>
             else data1);
          let st2 = st1\<lparr>ReputationScores := (ReputationScores st1)(ip \<mapsto> data2)\<rparr>;
          m' \<leftarrow> rw_Unlock (ReputationMutex st2);
          Some (st2\<lparr>ReputationMutex := m'\<rparr>)
        })"

definition GetReputationScore ::
  "reputation_config \<Rightarrow> reputation_state \<Rightarrow> string \<Rightarrow> int option" where
  "GetReputationScore cfg st ip =
     (if \<not> ReputationEnabled cfg then Some DefaultReputationScore
      else
        do {
          m \<leftarrow> rw_RLock (ReputationMutex st);
          let r = (case ReputationScores st ip of
                     None \<Rightarrow> DefaultReputationScore
                   | Some data \<Rightarrow> Score data);
          _ \<leftarrow> rw_RUnlock m;
          Some r
        })"

text \<open>
  The body of the loop over the ticker in \<open>ReputationDecayRoutine\<close>. The duration
  \<open>time.Duration(ReputationDecayInterval) * time.Second\<close> is a 64-bit product.
\<close>

definition decay_duration :: "reputation_config \<Rightarrow> duration" where
  "decay_duration cfg = wrap64 (ReputationDecayInterval cfg * Second)"

definition decay_record :: "reputation_config \<Rightarrow> time \<Rightarrow> ReputationData \<Rightarrow> ReputationData" where
  "decay_record cfg now data =
     (if time_Sub now (LastDecay data) \<ge> decay_duration cfg then
        (let s = Score data;
             s' = (if s < DefaultReputationScore then
                     (if s + 1 > DefaultReputationScore then DefaultReputationScore else s + 1)
                   else if s > DefaultReputationScore then
                     (if s - 1 < DefaultReputationScore then DefaultReputationScore else s - 1)
                   else s)
         in data\<lparr>Score := s', LastDecay := now\<rparr>)
      else data)"

definition ReputationDecayRoutine_tick ::
  "reputation_config \<Rightarrow> time \<Rightarrow> reputation_state \<Rightarrow> reputation_state option" where
  "ReputationDecayRoutine_tick cfg now st =
     do {
       m \<leftarrow> rw_Lock (ReputationMutex st);
       let scores = (\<lambda>ip. map_option (decay_record cfg now) (ReputationScores st ip));
       m' \<leftarrow> rw_Unlock m;
       Some (st\<lparr>ReputationScores := scores, ReputationMutex := m'\<rparr>)
     }"

section \<open>Difficulty controller (challenge.go)\<close>

text \<open>
  Modelled from the spec: the type \<open>domains.DomainData\<close> is declared outside the
  files at hand; the model keeps the four fields the firewall reads
  (\<open>Stage\<close>, \<open>RawAttack\<close>, \<open>BypassAttack\<close>, \<open>Stage2Difficulty\<close>), and
  \<open>domains.DomainsData\<close> is a map from domain names to such records.
\<close>

record DomainData =
  Stage :: int
  Stage2Difficulty :: int
  RawAttack :: bool
  BypassAttack :: bool

type_synonym DomainsData = "string \<rightharpoonup> DomainData"

record challenge_config =
  DynamicDifficultyEnabled :: bool
  MinDifficulty :: int
  MaxDifficulty :: int

definition default_challenge_config :: challenge_config where
  "default_challenge_config =
     \<lparr>DynamicDifficultyEnabled = True, MinDifficulty = 1, MaxDifficulty = 10\<rparr>"

definition BaseDifficulty :: int where
  "BaseDifficulty = 5"

definition CalculateDynamicDifficulty ::
  "challenge_config \<Rightarrow> reputation_config \<Rightarrow> reputation_state \<Rightarrow> DomainsData
     \<Rightarrow> string \<Rightarrow> string \<Rightarrow> int \<Rightarrow> int option" where
  "CalculateDynamicDifficulty cfg rcfg rst doms ip domainName baseDifficulty =
     (if \<not> DynamicDifficultyEnabled cfg then Some baseDifficulty
      else
        do {
          reputationScore \<leftarrow> GetReputationScore rcfg rst ip;
          (case doms domainName of
             None \<Rightarrow> Some baseDifficulty
           | Some domainData \<Rightarrow>
               (let reputationAdjustment =
                      (if reputationScore < 30 then 3
                       else if reputationScore < 50 then 2
                       else if reputationScore < 70 then 1
                       else if reputationScore \<ge> 90 then - 1
                       else 0);
                    attackAdjustment =
                      (if BypassAttack domainData then 2
                       else if RawAttack domainData then 1
                       else 0);
                    stageAdjustment =
                      (if Stage domainData = 3 then 1
                       else if Stage domainData = 2 then 0
                       else - 1);
                    finalDifficulty =
                      wrap64 (baseDifficulty + reputationAdjustment + attackAdjustment
                              + stageAdjustment);
                    f1 = (if finalDifficulty < MinDifficulty cfg then MinDifficulty cfg
                          else finalDifficulty);
                    f2 = (if f1 > MaxDifficulty cfg then MaxDifficulty cfg else f1)
                in Some f2))
        })"

definition GetEffectiveDifficulty ::
  "challenge_config \<Rightarrow> reputation_config \<Rightarrow> reputation_state \<Rightarrow> DomainsData
     \<Rightarrow> string \<Rightarrow> string \<Rightarrow> int option" where
  "GetEffectiveDifficulty cfg rcfg rst doms ip domainName =
     (case doms domainName of
        None \<Rightarrow> Some BaseDifficulty
      | Some domainData \<Rightarrow>
          (let baseDiff = (if Stage2Difficulty domainData = 0 then BaseDifficulty
                           else Stage2Difficulty domainData)
           in CalculateDynamicDifficulty cfg rcfg rst doms ip domainName baseDiff))"

section \<open>Adaptive controller (adaptive.go)\<close>

record adaptive_config =
  AdaptiveRateLimitEnabled :: bool
  AdaptiveBaseMultiplier :: float64
  AdaptiveAttackMultiplier :: float64
  AdaptiveDecayRate :: float64
  AdaptiveLearningEnabled :: bool

definition default_adaptive_config :: adaptive_config where
  "default_adaptive_config =
     \<lparr>AdaptiveRateLimitEnabled = True, AdaptiveBaseMultiplier = 1,
      AdaptiveAttackMultiplier = float64_round (3 / 10),
      AdaptiveDecayRate = float64_round (1 / 10),
      AdaptiveLearningEnabled = True\<rparr>"

type_synonym AdaptiveMultipliers = "string \<rightharpoonup> float64"

definition GetAdaptiveMultiplier ::
  "adaptive_config \<Rightarrow> AdaptiveMultipliers \<Rightarrow> string \<Rightarrow> float64" where
  "GetAdaptiveMultiplier cfg ms domainName =
     (if \<not> AdaptiveRateLimitEnabled cfg then AdaptiveBaseMultiplier cfg
      else (case ms domainName of
              None \<Rightarrow> AdaptiveBaseMultiplier cfg
            | Some multiplier \<Rightarrow> multiplier))"

definition UpdateAdaptiveMultiplier ::
  "adaptive_config \<Rightarrow> string \<Rightarrow> bool \<Rightarrow> bool \<Rightarrow> AdaptiveMultipliers \<Rightarrow> AdaptiveMultipliers" where
  "UpdateAdaptiveMultiplier cfg domainName isUnderAttack bypassAttack ms =
     (if \<not> AdaptiveRateLimitEnabled cfg then ms
      else
        (let currentMultiplier =
               (case ms domainName of
                  None \<Rightarrow> AdaptiveBaseMultiplier cfg
                | Some m \<Rightarrow> m)
         in if isUnderAttack then
              (if bypassAttack then
                 (let newMultiplier = f64_mul currentMultiplier (AdaptiveAttackMultiplier cfg);
                      newMultiplier' =
                        (if newMultiplier < AdaptiveAttackMultiplier cfg
                         then AdaptiveAttackMultiplier cfg else newMultiplier)
                  in ms(domainName \<mapsto> newMultiplier'))
               else
                 (let newMultiplier = f64_mul currentMultiplier (float64_round (7 / 10));
                      newMultiplier' =
                        (if newMultiplier < f64_mul (AdaptiveAttackMultiplier cfg) (3 / 2)
                         then f64_mul (AdaptiveAttackMultiplier cfg) (3 / 2) else newMultiplier)
                  in ms(domainName \<mapsto> newMultiplier')))
            else
              (if currentMultiplier < AdaptiveBaseMultiplier cfg then
                 (let decayAmount =
                        f64_mul (f64_sub (AdaptiveBaseMultiplier cfg) currentMultiplier)
                                (AdaptiveDecayRate cfg);
                      newMultiplier = f64_add currentMultiplier decayAmount;
                      newMultiplier' =
                        (if newMultiplier > AdaptiveBaseMultiplier cfg
                         then AdaptiveBaseMultiplier cfg else newMultiplier)
                  in ms(domainName \<mapsto> newMultiplier'))
               else ms)))"

text \<open>
  What the ticker loop of \<open>StartAdaptiveRateLimitRoutine\<close> does for one domain of
  \<open>domains.DomainsData\<close>.
\<close>

definition adaptive_tick_domain ::
  "adaptive_config \<Rightarrow> string \<Rightarrow> DomainData \<Rightarrow> AdaptiveMultipliers \<Rightarrow> AdaptiveMultipliers" where
  "adaptive_tick_domain cfg domainName domainData ms =
     (let isUnderAttack = (RawAttack domainData \<or> BypassAttack domainData)
      in UpdateAdaptiveMultiplier cfg domainName isUnderAttack (BypassAttack domainData) ms)"

definition GetAdaptiveRateLimit ::
  "adaptive_config \<Rightarrow> AdaptiveMultipliers \<Rightarrow> int \<Rightarrow> string \<Rightarrow> int" where
  "GetAdaptiveRateLimit cfg ms baseLimit domainName =
     (if \<not> AdaptiveRateLimitEnabled cfg then baseLimit
      else
        (let multiplier = GetAdaptiveMultiplier cfg ms domainName;
             adaptiveLimit = f64_mul (float64_of_int baseLimit) multiplier;
             adaptiveLimit' =
               (if adaptiveLimit < f64_mul (float64_of_int baseLimit) (AdaptiveAttackMultiplier cfg)
                then f64_mul (float64_of_int baseLimit) (AdaptiveAttackMultiplier cfg)
                else adaptiveLimit)
         in int_of_float64 adaptiveLimit'))"

subsection \<open>Trust-list learning\<close>

record WhitelistEntry =
  WIP :: string
  AddedAt :: time
  RequestCount :: int
  SuccessRate :: float64
  LastSeen :: time

text \<open>
  \<open>IPWhitelist\<close> maps an IP to a pointer to its entry. \<open>UpdateWhitelistLearning\<close>
  changes the entry through the pointer, so the map shows the new field values
  whether or not a branch stores the pointer again; only \<open>delete\<close> removes it.
\<close>

type_synonym IPWhitelist = "string \<rightharpoonup> WhitelistEntry"

definition CheckWhitelist :: "adaptive_config \<Rightarrow> time \<Rightarrow> IPWhitelist \<Rightarrow> string \<Rightarrow> bool" where
  "CheckWhitelist cfg now wl ip =
     (if \<not> AdaptiveLearningEnabled cfg then False
      else (case wl ip of
              None \<Rightarrow> False
            | Some entry \<Rightarrow>
                (if time_Sub now (LastSeen entry) > 24 * Hour then False else True)))"

text \<open>
  The first half of \<open>UpdateWhitelistLearning\<close>: the entry of the IP (a new one when the
  IP has none) after the request count, the last-seen time and the success rate have
  been updated.
\<close>

definition learned_entry :: "time \<Rightarrow> string \<Rightarrow> bool \<Rightarrow> IPWhitelist \<Rightarrow> WhitelistEntry" where
  "learned_entry now ip success wl =
     (let entry0 =
            (case wl ip of
               Some e \<Rightarrow> e
             | None \<Rightarrow> \<lparr>WIP = ip, AddedAt = now, RequestCount = 0,
                         SuccessRate = 0, LastSeen = now\<rparr>);
          n = RequestCount entry0 + 1;
          rate =
            (if success then
               f64_add (f64_mul (f64_div (float64_of_int (n - 1)) (float64_of_int n))
                                (SuccessRate entry0))
                       (f64_div 1 (float64_of_int n))
             else f64_mul (f64_div (float64_of_int (n - 1)) (float64_of_int n))
                          (SuccessRate entry0))
      in entry0\<lparr>RequestCount := n, LastSeen := now, SuccessRate := rate\<rparr>)"

definition UpdateWhitelistLearning ::
  "adaptive_config \<Rightarrow> time \<Rightarrow> string \<Rightarrow> bool \<Rightarrow> IPWhitelist \<Rightarrow> IPWhitelist" where
  "UpdateWhitelistLearning cfg now ip success wl =
     (if \<not> AdaptiveLearningEnabled cfg then wl
      else
        (let entry = learned_entry now ip success wl;
             wl1 = wl(ip \<mapsto> entry)
         in if RequestCount entry \<ge> 100 \<and> SuccessRate entry \<ge> float64_round (95 / 100)
              then wl1(ip \<mapsto> entry)
            else if RequestCount entry < 10 then wl1(ip \<mapsto> entry)
            else if SuccessRate entry < 1 / 2 then wl1(ip := None)
            else wl1))"

definition CleanupWhitelist :: "time \<Rightarrow> IPWhitelist \<Rightarrow> IPWhitelist" where
  "CleanupWhitelist now wl =
     (\<lambda>ip. case wl ip of
             None \<Rightarrow> None
           | Some entry \<Rightarrow>
               (if time_Sub now (LastSeen entry) > 7 * 24 * Hour then None else Some entry))"

text \<open>
  A history of the trust list: the calls made on it, oldest first, each with the
  clock reading of the call. The list starts empty (\<open>make(map[string]*WhitelistEntry)\<close>).
\<close>

datatype whitelist_call = Learn time string bool | Cleanup time

fun whitelist_step :: "adaptive_config \<Rightarrow> whitelist_call \<Rightarrow> IPWhitelist \<Rightarrow> IPWhitelist" where
  "whitelist_step cfg (Learn now ip success) wl = UpdateWhitelistLearning cfg now ip success wl"
| "whitelist_step cfg (Cleanup now) wl = CleanupWhitelist now wl"

fun whitelist_run :: "adaptive_config \<Rightarrow> whitelist_call list \<Rightarrow> IPWhitelist \<Rightarrow> IPWhitelist" where
  "whitelist_run cfg [] wl = wl"
| "whitelist_run cfg (c # cs) wl = whitelist_run cfg cs (whitelist_step cfg c wl)"

section \<open>Connection limiter\<close>

record connection_config =
  MaxConcurrentConnPerIP :: int
  MaxConnRatePerIP :: int
  MaxHalfOpenPerIP :: int
  EnableSynFloodProtection :: bool
  ConnectionRateWindow :: duration

definition default_connection_config :: connection_config where
  "default_connection_config =
     \<lparr>MaxConcurrentConnPerIP = 100, MaxConnRatePerIP = 10, MaxHalfOpenPerIP = 20,
      EnableSynFloodProtection = True, ConnectionRateWindow = 1 * Second\<rparr>"

record ConnectionLimiter =
  ActiveConnections :: "string \<rightharpoonup> int"
  ConnectionRate :: "string \<rightharpoonup> time list"
  HalfOpenConnections :: "string \<rightharpoonup> int"

definition initial_ConnectionLimiter :: ConnectionLimiter where
  "initial_ConnectionLimiter =
     \<lparr>ActiveConnections = Map.empty, ConnectionRate = Map.empty,
      HalfOpenConnections = Map.empty\<rparr>"

text \<open>Reading a Go map at a missing key yields the zero value of the element type.\<close>

definition count_at :: "(string \<rightharpoonup> int) \<Rightarrow> string \<Rightarrow> int" where
  "count_at m ip = (case m ip of None \<Rightarrow> 0 | Some n \<Rightarrow> n)"

definition timestamps_at :: "(string \<rightharpoonup> time list) \<Rightarrow> string \<Rightarrow> time list" where
  "timestamps_at m ip = (case m ip of None \<Rightarrow> [] | Some ts \<Rightarrow> ts)"

definition CheckConnectionLimit ::
  "connection_config \<Rightarrow> time \<Rightarrow> string \<Rightarrow> ConnectionLimiter \<Rightarrow> bool \<times> ConnectionLimiter" where
  "CheckConnectionLimit cfg now ip cl =
     (if count_at (ActiveConnections cl) ip \<ge> MaxConcurrentConnPerIP cfg then (False, cl)
      else
        (let rateTimestamps = timestamps_at (ConnectionRate cl) ip;
             validTimestamps =
               filter (\<lambda>ts. time_Sub now ts < ConnectionRateWindow cfg) rateTimestamps;
             cl1 = cl\<lparr>ConnectionRate := (ConnectionRate cl)(ip \<mapsto> validTimestamps)\<rparr>
         in if int (length validTimestamps) \<ge> MaxConnRatePerIP cfg then (False, cl1)
            else if EnableSynFloodProtection cfg
                    \<and> count_at (HalfOpenConnections cl1) ip \<ge> MaxHalfOpenPerIP cfg
              then (False, cl1)
            else (True, cl1)))"

definition IncrementConnection :: "time \<Rightarrow> string \<Rightarrow> ConnectionLimiter \<Rightarrow> ConnectionLimiter" where
  "IncrementConnection now ip cl =
     cl\<lparr>ActiveConnections := (ActiveConnections cl)(ip \<mapsto> count_at (ActiveConnections cl) ip + 1),
        ConnectionRate := (ConnectionRate cl)(ip \<mapsto> timestamps_at (ConnectionRate cl) ip @ [now])\<rparr>"

text \<open>A burst of connections of one IP: \<open>IncrementConnection\<close> at each instant of a list.\<close>

fun increment_all :: "time list \<Rightarrow> string \<Rightarrow> ConnectionLimiter \<Rightarrow> ConnectionLimiter" where
  "increment_all [] ip cl = cl"
| "increment_all (t # ts) ip cl = increment_all ts ip (IncrementConnection t ip cl)"

section \<open>Multi-window counter\<close>




















section \<open>Basic facts about the arithmetic and the lock\<close>

lemma wrap64_id: "- (2 ^ 63) \<le> x \<Longrightarrow> x < 2 ^ 63 \<Longrightarrow> wrap64 x = x"
  by (simp add: wrap64_def)

lemma wrap64_range: "- (2 ^ 63) \<le> wrap64 x \<and> wrap64 x < 2 ^ 63"
  unfolding wrap64_def
  using pos_mod_bound [of "2 ^ 64" "x + 2 ^ 63"] pos_mod_sign [of "2 ^ 64" "x + 2 ^ 63"]
  by simp

lemma GetReputationScore_absent:
  "ReputationScores rst ip = None \<Longrightarrow> ReputationMutex rst \<noteq> WLocked \<or> \<not> ReputationEnabled rcfg
     \<Longrightarrow> GetReputationScore rcfg rst ip = Some DefaultReputationScore"
  by (cases "ReputationMutex rst") (auto simp: GetReputationScore_def)

lemma GetReputationScore_returns:
  "ReputationMutex rst \<noteq> WLocked \<or> \<not> ReputationEnabled rcfg
     \<Longrightarrow> \<exists>s. GetReputationScore rcfg rst ip = Some s"
  by (cases "ReputationMutex rst") (auto simp: GetReputationScore_def)

section \<open>Facts about float64 rounding\<close>

lemma round_half_even_of_int: "round_half_even (of_int n) = n"
  by (simp add: round_half_even_def)

lemma round_half_even_mono:
  assumes "x \<le> y"
  shows "round_half_even x \<le> round_half_even y"
proof (cases "\<lfloor>x\<rfloor> = \<lfloor>y\<rfloor>")
  case True
  then show ?thesis
    using assms by (auto simp: round_half_even_def Let_def)
next
  case False
  then have lt: "\<lfloor>x\<rfloor> < \<lfloor>y\<rfloor>"
    using floor_mono [OF assms] by linarith
  have a: "round_half_even x \<le> \<lfloor>x\<rfloor> + 1"
    by (auto simp: round_half_even_def Let_def)
  have b: "\<lfloor>y\<rfloor> \<le> round_half_even y"
    by (auto simp: round_half_even_def Let_def)
  from a b lt show ?thesis by linarith
qed

lemma round_half_even_nonneg: "0 \<le> x \<Longrightarrow> 0 \<le> round_half_even x"
  using round_half_even_mono [of 0 x] round_half_even_of_int [of 0] by simp

lemma round_half_even_minus: "round_half_even (- x) = - round_half_even x"
proof (cases "x = of_int \<lfloor>x\<rfloor>")
  case True
  then obtain n where "x = of_int n" ..
  then have "- x = of_int (- n)" by simp
  then show ?thesis
    unfolding \<open>x = of_int n\<close> using round_half_even_of_int [of "- n"] round_half_even_of_int [of n]
    by simp
next
  case False
  then have fl: "\<lfloor>- x\<rfloor> = - \<lfloor>x\<rfloor> - 1"
    by (metis ceiling_altdef ceiling_def add.commute add_diff_cancel_left' minus_add_distrib
        uminus_add_conv_diff)
  show ?thesis
    unfolding round_half_even_def Let_def fl
    by (auto simp: algebra_simps)
qed


lemma ilog2_bounds:
  assumes "0 < x"
  shows "2 powi ilog2 x \<le> x \<and> x < 2 powi (ilog2 x + 1)"
proof (cases "1 \<le> x")
  case True
  define n where "n = \<lfloor>x\<rfloor>"
  have n: "0 < n" using True by (simp add: n_def)
  have e: "ilog2 x = bitlen n - 1" using True by (simp add: ilog2_def n_def)
  have b1: "1 \<le> bitlen n" using n by (simp add: bitlen_alt_def)
  from bitlen_bounds [OF n] have lo: "2 ^ nat (bitlen n - 1) \<le> n" and hi: "n < 2 ^ nat (bitlen n)"
    by simp_all
  have p1: "(2 :: rat) powi (bitlen n - 1) = 2 ^ nat (bitlen n - 1)"
    using b1 by (simp add: power_int_def)
  have p2: "(2 :: rat) powi (bitlen n - 1 + 1) = 2 ^ nat (bitlen n)"
    using b1 by (simp add: power_int_def)
  have "(of_int (2 ^ nat (bitlen n - 1)) :: rat) \<le> of_int n"
    using lo by (simp only: of_int_le_iff)
  also have "\<dots> \<le> x" by (simp add: n_def)
  finally have A: "2 powi ilog2 x \<le> x" by (simp add: e p1)
  have "n + 1 \<le> 2 ^ nat (bitlen n)" using hi by simp
  then have "(of_int (n + 1) :: rat) \<le> of_int (2 ^ nat (bitlen n))"
    by (simp only: of_int_le_iff)
  moreover have "x < of_int (n + 1)" unfolding n_def by linarith
  ultimately have B: "x < 2 powi (ilog2 x + 1)"
    unfolding e p2 by simp
  from A B show ?thesis ..
next
  case False
  define c where "c = \<lceil>1 / x\<rceil> - 1"
  have y: "1 < 1 / x" using False assms by simp
  then have c: "0 < c" unfolding c_def by linarith
  have e: "ilog2 x = - bitlen c" using False by (simp add: ilog2_def c_def)
  have b1: "1 \<le> bitlen c" using c by (simp add: bitlen_alt_def)
  from bitlen_bounds [OF c] have lo: "2 ^ nat (bitlen c - 1) \<le> c" and hi: "c < 2 ^ nat (bitlen c)"
    by simp_all
  have "c + 1 \<le> 2 ^ nat (bitlen c)" using hi by simp
  then have "(of_int (c + 1) :: rat) \<le> of_int (2 ^ nat (bitlen c))"
    by (simp only: of_int_le_iff)
  moreover have "1 / x \<le> of_int (c + 1)" unfolding c_def by simp
  ultimately have "1 / x \<le> 2 ^ nat (bitlen c)" by simp
  then have "1 \<le> 2 ^ nat (bitlen c) * x"
    using assms by (simp add: field_simps)
  then have "1 / 2 ^ nat (bitlen c) \<le> x"
    by (simp add: field_simps)
  moreover have "(2 :: rat) powi (- bitlen c) = 1 / 2 ^ nat (bitlen c)"
    using b1 by (simp add: power_int_def field_simps)
  ultimately have A: "2 powi ilog2 x \<le> x" by (simp add: e)
  have "(of_int (2 ^ nat (bitlen c - 1)) :: rat) \<le> of_int c"
    using lo by (simp only: of_int_le_iff)
  then have "(2 :: rat) ^ nat (bitlen c - 1) \<le> of_int c" by simp
  moreover have "of_int c < 1 / x" unfolding c_def by linarith
  ultimately have "2 ^ nat (bitlen c - 1) < 1 / x" by linarith
  then have "2 ^ nat (bitlen c - 1) * x < 1"
    using assms by (simp add: field_simps)
  then have "x < 1 / 2 ^ nat (bitlen c - 1)"
    by (simp add: field_simps)
  moreover have "(2 :: rat) powi (- bitlen c + 1) = 1 / 2 ^ nat (bitlen c - 1)"
  proof -
    have "- bitlen c + 1 = - int (nat (bitlen c - 1))" using b1 by simp
    then show ?thesis by (simp only: power_int_minus power_int_of_nat) (simp add: field_simps)
  qed
  ultimately have B: "x < 2 powi (ilog2 x + 1)" by (simp add: e)
  from A B show ?thesis ..
qed

lemma ilog2_mono:
  assumes "0 < x" and "x \<le> y"
  shows "ilog2 x \<le> ilog2 y"
proof (rule ccontr)
  assume "\<not> ilog2 x \<le> ilog2 y"
  then have "ilog2 y + 1 \<le> ilog2 x" by simp
  then have "(2 :: rat) powi (ilog2 y + 1) \<le> 2 powi ilog2 x"
    by (intro power_int_increasing) simp_all
  moreover have "y < 2 powi (ilog2 y + 1)" using ilog2_bounds [of y] assms by simp
  moreover have "2 powi ilog2 x \<le> x" using ilog2_bounds [OF assms(1)] by simp
  ultimately show False using assms(2) by linarith
qed


lemma float64_quantum_pos: "0 < float64_quantum x"
  by (simp add: float64_quantum_def)

lemma float64_quantum_minus: "float64_quantum (- x) = float64_quantum x"
  by (simp add: float64_quantum_def)

lemma float64_round_minus: "float64_round (- x) = - float64_round x"
  by (simp add: float64_round_def float64_quantum_minus round_half_even_minus)

lemma float64_round_nonneg:
  assumes "0 \<le> x"
  shows "0 \<le> float64_round x"
proof -
  have "0 \<le> x / float64_quantum x"
    using assms float64_quantum_pos [of x] by simp
  then have "0 \<le> round_half_even (x / float64_quantum x)"
    by (rule round_half_even_nonneg)
  then show ?thesis
    using float64_quantum_pos [of x] by (simp add: float64_round_def)
qed

lemma float64_round_mono_pos:
  assumes "0 < x" and "x \<le> y"
  shows "float64_round x \<le> float64_round y"
proof -
  define ex where "ex = max (ilog2 x) (- 1022)"
  define ey where "ey = max (ilog2 y) (- 1022)"
  define qx :: rat where "qx = 2 powi (ex - 52)"
  define qy :: rat where "qy = 2 powi (ey - 52)"
  have y: "0 < y" using assms by linarith
  have qx: "0 < qx" and qy: "0 < qy" by (simp_all add: qx_def qy_def)
  have rx: "float64_round x = of_int (round_half_even (x / qx)) * qx"
    using assms(1) by (simp add: float64_round_def float64_quantum_def qx_def ex_def)
  have ry: "float64_round y = of_int (round_half_even (y / qy)) * qy"
    using y by (simp add: float64_round_def float64_quantum_def qy_def ey_def)
  have le: "ex \<le> ey"
    using ilog2_mono [OF assms] by (simp add: ex_def ey_def)
  show ?thesis
  proof (cases "ex = ey")
    case True
    then have q: "qy = qx" by (simp add: qx_def qy_def)
    have "x / qx \<le> y / qx" using assms(2) qx by (simp add: divide_right_mono)
    then have "round_half_even (x / qx) \<le> round_half_even (y / qx)"
      by (rule round_half_even_mono)
    then have "(of_int (round_half_even (x / qx)) :: rat) \<le> of_int (round_half_even (y / qx))"
      by (simp only: of_int_le_iff)
    then show ?thesis
      unfolding rx ry q using qx by (simp add: mult_right_mono)
  next
    case False
    with le have lt: "ex + 1 \<le> ey" by simp
    then have eyl: "ey = ilog2 y" by (auto simp: ey_def ex_def max_def split: if_splits)
    define B :: rat where "B = 2 powi (ex + 1)"
    define C :: rat where "C = 2 powi ey"
    have BC: "B \<le> C"
      unfolding B_def C_def using lt by (intro power_int_increasing) simp_all
    have "x < 2 powi (ilog2 x + 1)" using ilog2_bounds [OF assms(1)] by simp
    also have "\<dots> \<le> B"
      unfolding B_def by (intro power_int_increasing) (simp_all add: ex_def)
    finally have xB: "x \<le> B" by simp
    have Cy: "C \<le> y" using ilog2_bounds [OF y] by (simp add: C_def eyl)
    have Bq: "B / qx = of_int (2 ^ 53)"
    proof -
      have "B / qx = 2 powi (ex + 1 - (ex - 52))"
        unfolding B_def qx_def by (subst power_int_diff) simp_all
      then show ?thesis by simp
    qed
    have Cq: "C / qy = of_int (2 ^ 52)"
    proof -
      have "C / qy = 2 powi (ey - (ey - 52))"
        unfolding C_def qy_def by (subst power_int_diff) simp_all
      then show ?thesis by simp
    qed
    have "x / qx \<le> B / qx" using xB qx by (simp add: divide_right_mono)
    then have "round_half_even (x / qx) \<le> round_half_even (B / qx)"
      by (rule round_half_even_mono)
    then have "round_half_even (x / qx) \<le> 2 ^ 53"
      unfolding Bq round_half_even_of_int .
    then have "(of_int (round_half_even (x / qx)) :: rat) \<le> of_int (2 ^ 53)"
      by (simp only: of_int_le_iff)
    then have "of_int (round_half_even (x / qx)) * qx \<le> of_int (2 ^ 53) * qx"
      using qx by (simp add: mult_right_mono)
    also have "of_int (2 ^ 53) * qx = B"
      using Bq qx by (simp add: field_simps)
    finally have 1: "float64_round x \<le> B" unfolding rx .
    have "C / qy \<le> y / qy" using Cy qy by (simp add: divide_right_mono)
    then have "round_half_even (C / qy) \<le> round_half_even (y / qy)"
      by (rule round_half_even_mono)
    then have "2 ^ 52 \<le> round_half_even (y / qy)"
      unfolding Cq round_half_even_of_int .
    then have "(of_int (2 ^ 52) :: rat) \<le> of_int (round_half_even (y / qy))"
      by (simp only: of_int_le_iff)
    then have "of_int (2 ^ 52) * qy \<le> of_int (round_half_even (y / qy)) * qy"
      using qy by (simp add: mult_right_mono)
    moreover have "of_int (2 ^ 52) * qy = C"
      using Cq qy by (simp add: field_simps)
    ultimately have 2: "C \<le> float64_round y" unfolding ry by simp
    from 1 BC 2 show ?thesis by linarith
  qed
qed

lemma float64_round_mono:
  assumes "x \<le> y"
  shows "float64_round x \<le> float64_round y"
proof -
  consider "0 < x" | "x \<le> 0" "0 \<le> y" | "y < 0" by linarith
  then show ?thesis
  proof cases
    case 1
    then show ?thesis using assms by (rule float64_round_mono_pos)
  next
    case 2
    have "0 \<le> float64_round (- x)" using 2(1) by (intro float64_round_nonneg) simp
    then have "float64_round x \<le> 0" by (simp add: float64_round_minus)
    moreover have "0 \<le> float64_round y" using 2(2) by (rule float64_round_nonneg)
    ultimately show ?thesis by linarith
  next
    case 3
    have "float64_round (- y) \<le> float64_round (- x)"
      using 3 assms by (intro float64_round_mono_pos) simp_all
    then show ?thesis by (simp add: float64_round_minus)
  qed
qed

lemma float64_round_0: "float64_round 0 = 0"
  by (simp add: float64_round_def)

lemma float64_round_1: "float64_round 1 = 1"
  by code_simp

text \<open>
  Rounding a float64 value again gives the same value: the results of the operations
  are float64 values.
\<close>

lemma ilog2_less:
  assumes "0 < r" and "r < 2 powi k"
  shows "ilog2 r < k"
proof (rule ccontr)
  assume "\<not> ilog2 r < k"
  then have "(2 :: rat) powi k \<le> 2 powi ilog2 r"
    by (intro power_int_increasing) simp_all
  moreover have "2 powi ilog2 r \<le> r" using ilog2_bounds [OF assms(1)] by simp
  ultimately show False using assms(2) by linarith
qed

lemma ilog2_power: "ilog2 (2 powi k) = k"
proof -
  have p: "(0 :: rat) < 2 powi k" by simp
  have "ilog2 (2 powi k) < k + 1"
    by (rule ilog2_less [OF p]) (intro power_int_strict_increasing, simp_all)
  moreover have "\<not> ilog2 (2 powi k) < k"
  proof
    assume "ilog2 (2 powi k) < k"
    then have "ilog2 (2 powi k) + 1 \<le> k" by simp
    then have "(2 :: rat) powi (ilog2 (2 powi k) + 1) \<le> 2 powi k"
      by (intro power_int_increasing) simp_all
    moreover have "(2 :: rat) powi k < 2 powi (ilog2 (2 powi k) + 1)"
      using ilog2_bounds [OF p] by simp
    ultimately show False by linarith
  qed
  ultimately show ?thesis by linarith
qed

lemma float64_round_multiple:
  assumes "0 < r" and "r = of_int n * 2 powi j" and "j \<ge> max (ilog2 r) (- 1022) - 52"
  shows "float64_round r = r"
proof -
  define e where "e = max (ilog2 r) (- 1022)"
  have j: "e - 52 \<le> j" using assms(3) by (simp add: e_def)
  have q: "float64_quantum r = 2 powi (e - 52)"
    using assms(1) by (simp add: float64_quantum_def e_def)
  have "r / 2 powi (e - 52) = of_int n * (2 powi j / 2 powi (e - 52))"
    by (simp add: assms(2))
  also have "2 powi j / 2 powi (e - 52) = (2 :: rat) powi (j - (e - 52))"
    by (subst power_int_diff) simp_all
  also have "\<dots> = of_int (2 ^ nat (j - (e - 52)))"
    using j by (simp add: power_int_def)
  finally have "r / 2 powi (e - 52) = of_int (n * 2 ^ nat (j - (e - 52)))"
    by simp
  then have "round_half_even (r / 2 powi (e - 52)) = n * 2 ^ nat (j - (e - 52))"
    by (simp only: round_half_even_of_int)
  moreover have "of_int (n * 2 ^ nat (j - (e - 52))) * (2 :: rat) powi (e - 52) = r"
    using \<open>r / 2 powi (e - 52) = of_int (n * 2 ^ nat (j - (e - 52)))\<close>
    by (simp add: field_simps)
  ultimately show ?thesis
    using assms(1) by (simp add: float64_round_def q)
qed


lemma float64_round_idem_pos:
  assumes "0 < x"
  shows "float64_round (float64_round x) = float64_round x"
proof -
  define e where "e = max (ilog2 x) (- 1022)"
  define q :: rat where "q = 2 powi (e - 52)"
  define n where "n = round_half_even (x / q)"
  define r where "r = float64_round x"
  have q: "0 < q" by (simp add: q_def)
  have r: "r = of_int n * q"
    using assms by (simp add: r_def float64_round_def float64_quantum_def e_def q_def n_def)
  have e: "- 1022 \<le> e" by (simp add: e_def)
  have n0: "0 \<le> n"
    unfolding n_def using assms q by (intro round_half_even_nonneg) simp
  have "x < 2 powi (ilog2 x + 1)" using ilog2_bounds [OF assms] by simp
  also have "\<dots> \<le> 2 powi (e + 1)"
    by (intro power_int_increasing) (simp_all add: e_def)
  finally have xB: "x \<le> 2 powi (e + 1)" by simp
  have Bq: "2 powi (e + 1) / q = of_int (2 ^ 53)"
  proof -
    have "2 powi (e + 1) / q = 2 powi (e + 1 - (e - 52))"
      unfolding q_def by (subst power_int_diff) simp_all
    then show ?thesis by simp
  qed
  have "x / q \<le> 2 powi (e + 1) / q" using xB q by (simp add: divide_right_mono)
  then have "n \<le> round_half_even (2 powi (e + 1) / q)"
    unfolding n_def by (rule round_half_even_mono)
  then have n53: "n \<le> 2 ^ 53" unfolding Bq round_half_even_of_int .
  show ?thesis
  proof (cases "n = 0")
    case True
    then have "r = 0" by (simp add: r)
    then show ?thesis unfolding r_def [symmetric] by (simp add: float64_round_0)
  next
    case False
    with n0 have npos: "0 < n" by simp
    then have rpos: "0 < r" using q by (simp add: r)
    show ?thesis
    proof (cases "n = 2 ^ 53")
      case True
      have "r = of_int (2 ^ 53) * q" by (simp add: r True)
      also have "\<dots> = 2 powi (e + 1)" using Bq q by (simp add: field_simps)
      finally have r2: "r = 2 powi (e + 1)" .
      have "float64_round r = r"
      proof (rule float64_round_multiple [OF rpos, of 1 "e + 1"])
        show "r = of_int 1 * 2 powi (e + 1)" by (simp add: r2)
        show "max (ilog2 r) (- 1022) - 52 \<le> e + 1"
          unfolding r2 ilog2_power using e by simp
      qed
      then show ?thesis by (simp add: r_def)
    next
      case neq: False
      with n53 have "n < 2 ^ 53" by simp
      then have "(of_int n :: rat) < of_int (2 ^ 53)" by (simp only: of_int_less_iff)
      then have "of_int n * q < of_int (2 ^ 53) * q"
        using q by (simp add: mult_strict_right_mono)
      also have "of_int (2 ^ 53) * q = 2 powi (e + 1)" using Bq q by (simp add: field_simps)
      finally have "r < 2 powi (e + 1)" by (simp add: r)
      then have "ilog2 r < e + 1" by (rule ilog2_less [OF rpos])
      then have le: "max (ilog2 r) (- 1022) \<le> e" using e by simp
      have "float64_round r = r"
      proof (rule float64_round_multiple [OF rpos, of n "e - 52"])
        show "r = of_int n * 2 powi (e - 52)" by (simp add: r q_def)
        show "max (ilog2 r) (- 1022) - 52 \<le> e - 52" using le by simp
      qed
      then show ?thesis by (simp add: r_def)
    qed
  qed
qed

lemma float64_round_idem: "float64_round (float64_round x) = float64_round x"
proof -
  consider "0 < x" | "x = 0" | "x < 0" by linarith
  then show ?thesis
  proof cases
    case 1
    then show ?thesis by (rule float64_round_idem_pos)
  next
    case 2
    then show ?thesis by (simp add: float64_round_0)
  next
    case 3
    then have "float64_round (float64_round (- x)) = float64_round (- x)"
      by (intro float64_round_idem_pos) simp
    then show ?thesis by (simp add: float64_round_minus)
  qed
qed

lemma is_float64_round: "is_float64 (float64_round x)"
  by (simp add: is_float64_def float64_round_idem)

lemma is_float64_operations:
  "is_float64 (f64_mul x y)" "is_float64 (f64_div x y)"
  "is_float64 (f64_add x y)" "is_float64 (f64_sub x y)" "is_float64 (float64_of_int n)"
  by (simp_all add: f64_mul_def f64_div_def f64_add_def f64_sub_def float64_of_int_def
      is_float64_round)

lemma f64_mul_zero_right: "f64_mul x 0 = 0"
  by (simp add: f64_mul_def float64_round_0)

lemma f64_mul_zero_left: "f64_mul 0 y = 0"
  by (simp add: f64_mul_def float64_round_0)

lemma float64_of_int_0: "float64_of_int 0 = 0"
  by (simp add: float64_of_int_def float64_round_0)

lemma float64_of_int_1: "float64_of_int 1 = 1"
  by (simp add: float64_of_int_def float64_round_1)

lemma float64_exact_literals:
  "is_float64 0" "is_float64 (1 / 2)" "is_float64 1" "is_float64 (3 / 2)"
  unfolding is_float64_def by code_simp+

lemma float64_decimal_literals:
  "float64_round (1 / 10) = 3602879701896397 / 36028797018963968"
  "float64_round (3 / 10) = 5404319552844595 / 18014398509481984"
  "float64_round (7 / 10) = 3152519739159347 / 4503599627370496"
  "float64_round (9 / 10) = 8106479329266893 / 9007199254740992"
  "float64_round (95 / 100) = 4278419646001971 / 4503599627370496"
  by code_simp+

lemma default_attack_multiplier_is_float64:
  "is_float64 (AdaptiveAttackMultiplier default_adaptive_config)"
  unfolding is_float64_def default_adaptive_config_def by code_simp

section \<open>Difficulty of a cold IP (C1)\<close>

text \<open>
  The scenario of the specification: an IP without a reputation record, a domain at
  stage 1 with no attack flag and stage-2 difficulty 5, default settings. The code does
  not return 4 there: a score of 50 falls in the band \<open>50 \<le> score < 70\<close>, which adds 1.
\<close>

theorem C1_counterexample:
  "GetEffectiveDifficulty default_challenge_config default_reputation_config
     initial_reputation_state
     [''example.com'' \<mapsto> \<lparr>Stage = 1, Stage2Difficulty = 5, RawAttack = False, BypassAttack = False\<rparr>]
     ''198.51.100.7'' ''example.com'' \<noteq> Some 4"
  by (simp add: GetEffectiveDifficulty_def CalculateDynamicDifficulty_def
      GetReputationScore_def default_challenge_config_def default_reputation_config_def
      initial_reputation_state_def DefaultReputationScore_def wrap64_def)

text \<open>
  Claim C1, amended: for an IP with no reputation record (score read as the default 50),
  on a domain at stage 1 with neither attack flag set and base difficulty 5 (configured
  as 5, or left 0 so that the global base applies), \<open>GetEffectiveDifficulty\<close> returns
  5 = 5 + 1 + 0 - 1, whenever 5 lies between the configured minimum and maximum.
\<close>

theorem C1_cold_ip_difficulty:
  assumes "ReputationScores rst ip = None"
    and "ReputationMutex rst \<noteq> WLocked \<or> \<not> ReputationEnabled rcfg"
    and "doms domainName = Some dd"
    and "Stage dd = 1" and "\<not> RawAttack dd" and "\<not> BypassAttack dd"
    and "Stage2Difficulty dd = 5 \<or> Stage2Difficulty dd = 0"
    and "MinDifficulty cfg \<le> 5" and "5 \<le> MaxDifficulty cfg"
  shows "GetEffectiveDifficulty cfg rcfg rst doms ip domainName = Some 5"
proof -
  have score: "GetReputationScore rcfg rst ip = Some 50"
    using GetReputationScore_absent [OF assms(1,2)] by (simp add: DefaultReputationScore_def)
  have w: "wrap64 5 = 5" by (simp add: wrap64_def)
  show ?thesis
    using assms(3-9) score w
    by (auto simp: GetEffectiveDifficulty_def CalculateDynamicDifficulty_def BaseDifficulty_def)
qed

theorem C1_cold_ip_difficulty_witness:
  "GetEffectiveDifficulty default_challenge_config default_reputation_config
     initial_reputation_state
     [''example.com'' \<mapsto> \<lparr>Stage = 1, Stage2Difficulty = 5, RawAttack = False, BypassAttack = False\<rparr>]
     ''198.51.100.7'' ''example.com'' = Some 5"
  by (rule C1_cold_ip_difficulty
      [where dd = "\<lparr>Stage = 1, Stage2Difficulty = 5, RawAttack = False, BypassAttack = False\<rparr>"])
    (simp_all add: initial_reputation_state_def default_challenge_config_def)

section \<open>Range of the difficulty (C4)\<close>

text \<open>
  Three inputs at which the result lies outside the configured range. For a domain that
  is not in \<open>DomainsData\<close> the global base 5 is returned as it is, also when the
  configured minimum is 7. With dynamic difficulty switched off the stage-2 difficulty
  of the domain is returned as it is, here 20 against a maximum of 10. With a minimum
  of 8 above a maximum of 3 the second clamp wins and the result is 3, below the
  minimum.
\<close>

theorem C4_counterexample:
  "GetEffectiveDifficulty \<lparr>DynamicDifficultyEnabled = True, MinDifficulty = 7, MaxDifficulty = 10\<rparr>
     default_reputation_config initial_reputation_state Map.empty
     ''198.51.100.7'' ''unknown.example'' = Some 5
   \<and> (5 :: int) < MinDifficulty \<lparr>DynamicDifficultyEnabled = True, MinDifficulty = 7, MaxDifficulty = 10\<rparr>
   \<and> GetEffectiveDifficulty \<lparr>DynamicDifficultyEnabled = False, MinDifficulty = 1, MaxDifficulty = 10\<rparr>
     default_reputation_config initial_reputation_state
     [''example.com'' \<mapsto> \<lparr>Stage = 1, Stage2Difficulty = 20, RawAttack = False, BypassAttack = False\<rparr>]
     ''198.51.100.7'' ''example.com'' = Some 20
   \<and> MaxDifficulty \<lparr>DynamicDifficultyEnabled = False, MinDifficulty = 1, MaxDifficulty = 10\<rparr> < (20 :: int)
   \<and> GetEffectiveDifficulty \<lparr>DynamicDifficultyEnabled = True, MinDifficulty = 8, MaxDifficulty = 3\<rparr>
     default_reputation_config initial_reputation_state
     [''example.com'' \<mapsto> \<lparr>Stage = 1, Stage2Difficulty = 5, RawAttack = False, BypassAttack = False\<rparr>]
     ''198.51.100.7'' ''example.com'' = Some 3
   \<and> (3 :: int) < MinDifficulty \<lparr>DynamicDifficultyEnabled = True, MinDifficulty = 8, MaxDifficulty = 3\<rparr>"
  by (simp add: GetEffectiveDifficulty_def CalculateDynamicDifficulty_def BaseDifficulty_def
      GetReputationScore_def default_reputation_config_def initial_reputation_state_def
      DefaultReputationScore_def wrap64_def)

text \<open>
  Claim C4, amended: with dynamic difficulty enabled and \<open>MinDifficulty \<le> MaxDifficulty\<close>,
  for every IP, every reputation score, every attack-flag combination, every stage and
  every configured base difficulty of a known domain, \<open>GetEffectiveDifficulty\<close> returns
  a value in \<open>[MinDifficulty, MaxDifficulty]\<close>; for an unknown domain it returns the
  global base difficulty 5, unclamped.
\<close>

theorem C4_difficulty_in_range:
  assumes "DynamicDifficultyEnabled cfg"
    and "MinDifficulty cfg \<le> MaxDifficulty cfg"
    and "ReputationMutex rst \<noteq> WLocked \<or> \<not> ReputationEnabled rcfg"
  shows "case doms domainName of
           None \<Rightarrow> GetEffectiveDifficulty cfg rcfg rst doms ip domainName = Some BaseDifficulty
         | Some dd \<Rightarrow>
             (\<exists>v. GetEffectiveDifficulty cfg rcfg rst doms ip domainName = Some v
                  \<and> MinDifficulty cfg \<le> v \<and> v \<le> MaxDifficulty cfg)"
proof (cases "doms domainName")
  case None
  then show ?thesis by (simp add: GetEffectiveDifficulty_def)
next
  case (Some dd)
  obtain s where s: "GetReputationScore rcfg rst ip = Some s"
    using GetReputationScore_returns [OF assms(3)] by blast
  show ?thesis
    using Some s assms(1,2)
    by (simp add: GetEffectiveDifficulty_def CalculateDynamicDifficulty_def Let_def)
qed

theorem C4_difficulty_in_range_witness:
  "\<exists>v. GetEffectiveDifficulty default_challenge_config default_reputation_config
          initial_reputation_state
          [''example.com'' \<mapsto> \<lparr>Stage = 3, Stage2Difficulty = 5, RawAttack = False, BypassAttack = True\<rparr>]
          ''198.51.100.7'' ''example.com'' = Some v
        \<and> MinDifficulty default_challenge_config \<le> v \<and> v \<le> MaxDifficulty default_challenge_config"
  using C4_difficulty_in_range [where cfg = default_challenge_config
      and rst = initial_reputation_state and rcfg = default_reputation_config
      and doms = "[''example.com'' \<mapsto> \<lparr>Stage = 3, Stage2Difficulty = 5, RawAttack = False, BypassAttack = True\<rparr>]"
      and domainName = "''example.com''" and ip = "''198.51.100.7''"]
  by (simp add: default_challenge_config_def initial_reputation_state_def)

section \<open>Updating a reputation score (C5)\<close>

text \<open>
  \<open>UpdateReputation\<close> takes the write lock of the store and then calls
  \<open>GetReputation\<close>, whose first statement takes the read lock of the same
  \<open>sync.RWMutex\<close>. The read lock is not granted while the write lock is held, and the
  write lock is released only by the deferred \<open>Unlock\<close> of the caller that is waiting:
  with reputation enabled no call of \<open>UpdateReputation\<close> returns, whatever the state
  of the store.
\<close>

lemma GetReputation_write_locked: "GetReputation now ip (st\<lparr>ReputationMutex := WLocked\<rparr>) = None"
  by (simp add: GetReputation_def)

lemma UpdateReputation_never_returns:
  "ReputationEnabled cfg \<Longrightarrow> UpdateReputation cfg now ip scoreChange reason st = None"
  by (cases "ReputationMutex st") (simp_all add: UpdateReputation_def GetReputation_write_locked)

text \<open>
  Claim C5 says that \<open>UpdateReputation(ip, +100, r)\<close> on a fresh IP leaves the score at
  exactly 100. On the empty store with the default settings the call does not return,
  and no score is stored.
\<close>

theorem C5_update_blocks:
  "UpdateReputation default_reputation_config 0 ''198.51.100.7'' 100 ''successful_access''
     initial_reputation_state = None"
  by (simp add: UpdateReputation_def GetReputation_def default_reputation_config_def
      initial_reputation_state_def)

section \<open>Decay of reputation scores (C9)\<close>

lemma time_Sub_ge_iff:
  assumes "0 \<le> D" and "D < 2 ^ 63"
  shows "(D \<le> time_Sub now t) = (D \<le> now - t)"
proof -
  define x where "x = now - t"
  define B :: int where "B = 2 ^ 63"
  have B: "0 < B" by (simp add: B_def)
  have "(D \<le> max (- B) (min (B - 1) x)) = (D \<le> x)"
    using assms B unfolding B_def [symmetric] by (auto simp: max_def min_def)
  then show ?thesis by (simp add: time_Sub_def x_def B_def)
qed

lemma decay_duration_exact:
  assumes "0 \<le> ReputationDecayInterval cfg" and "ReputationDecayInterval cfg * Second < 2 ^ 63"
  shows "decay_duration cfg = ReputationDecayInterval cfg * Second"
proof -
  have "0 \<le> ReputationDecayInterval cfg * Second"
    using assms(1) by (simp add: Second_def)
  then have "- (2 ^ 63) \<le> ReputationDecayInterval cfg * Second"
    by (rule order_trans [rotated]) simp
  then show ?thesis
    using assms(2) by (simp add: decay_duration_def wrap64_id)
qed

lemma decay_record_stale:
  assumes "0 \<le> ReputationDecayInterval cfg" and "ReputationDecayInterval cfg * Second < 2 ^ 63"
  shows "decay_record cfg now d =
     (if ReputationDecayInterval cfg * Second \<le> now - LastDecay d
      then d\<lparr>Score := (if Score d < 50 then Score d + 1
                        else if 50 < Score d then Score d - 1
                        else Score d),
              LastDecay := now\<rparr>
      else d)"
proof -
  have "0 \<le> ReputationDecayInterval cfg * Second"
    using assms(1) by (simp add: Second_def)
  then have iff: "(decay_duration cfg \<le> time_Sub now (LastDecay d))
      = (ReputationDecayInterval cfg * Second \<le> now - LastDecay d)"
    using time_Sub_ge_iff [of "ReputationDecayInterval cfg * Second" now "LastDecay d"] assms(2)
    by (simp add: decay_duration_exact [OF assms])
  show ?thesis
    unfolding decay_record_def iff
    by (simp add: DefaultReputationScore_def Let_def)
qed

text \<open>
  Claim C9: one decay tick, run while no other operation holds the lock of the store,
  returns; a record whose \<open>last_decay\<close> lies at least one decay interval before the
  tick gets its score moved by exactly one towards 50 (plus one below 50, minus one
  above 50, unchanged at 50) and its \<open>last_decay\<close> set to the instant of the tick,
  with every other field kept; a record with a fresher \<open>last_decay\<close> is left as it
  is. The interval is the configured number of seconds, which the loader keeps positive;
  its length in nanoseconds has to fit the 64-bit \<open>Duration\<close>.
\<close>

theorem C9_decay_tick:
  assumes "ReputationMutex st = Unlocked"
    and "0 \<le> ReputationDecayInterval cfg"
    and "ReputationDecayInterval cfg * Second < 2 ^ 63"
    and "ReputationScores st ip = Some d"
  shows "\<exists>st'. ReputationDecayRoutine_tick cfg now st = Some st'
           \<and> ReputationScores st' ip =
               Some (if ReputationDecayInterval cfg * Second \<le> now - LastDecay d
                     then d\<lparr>Score := (if Score d < 50 then Score d + 1
                                       else if 50 < Score d then Score d - 1
                                       else Score d),
                             LastDecay := now\<rparr>
                     else d)"
proof -
  have tick: "ReputationDecayRoutine_tick cfg now st =
      Some (st\<lparr>ReputationScores := (\<lambda>ip. map_option (decay_record cfg now) (ReputationScores st ip)),
               ReputationMutex := Unlocked\<rparr>)"
    using assms(1) by (simp add: ReputationDecayRoutine_tick_def)
  show ?thesis
    unfolding tick using assms(4) decay_record_stale [OF assms(2,3), of now d] by simp
qed

theorem C9_decay_tick_witness:
  "\<exists>st'. ReputationDecayRoutine_tick default_reputation_config 7200000000000
        \<lparr>ReputationScores = [''198.51.100.7'' \<mapsto>
            \<lparr>IP = ''198.51.100.7'', Score = 20, LastUpdated = 0, LastDecay = 0,
             TotalRequests = 3, FailedChallenges = 1, RateLimitHits = 0\<rparr>],
          ReputationMutex = Unlocked\<rparr> = Some st'
      \<and> ReputationScores st' ''198.51.100.7'' =
          Some \<lparr>IP = ''198.51.100.7'', Score = 21, LastUpdated = 0, LastDecay = 7200000000000,
             TotalRequests = 3, FailedChallenges = 1, RateLimitHits = 0\<rparr>"
  using C9_decay_tick [where cfg = default_reputation_config and now = 7200000000000
      and ip = "''198.51.100.7''"
      and d = "\<lparr>IP = ''198.51.100.7'', Score = 20, LastUpdated = 0, LastDecay = 0,
             TotalRequests = 3, FailedChallenges = 1, RateLimitHits = 0\<rparr>"
      and st = "\<lparr>ReputationScores = [''198.51.100.7'' \<mapsto>
            \<lparr>IP = ''198.51.100.7'', Score = 20, LastUpdated = 0, LastDecay = 0,
             TotalRequests = 3, FailedChallenges = 1, RateLimitHits = 0\<rparr>],
          ReputationMutex = Unlocked\<rparr>"]
  by (simp add: default_reputation_config_def Second_def)

section \<open>Effective rate limit (C2)\<close>

text \<open>
  After a tick under a bypass attack the multiplier of a domain is the float64 value
  of 0.3. For a base limit of 5 both products are 1.5 and the function, whose result
  type is \<open>int\<close>, returns 1: the result is the maximum of the two products neither
  when they are taken exactly nor when they are taken in float64 arithmetic.
\<close>

theorem C2_counterexample:
  "of_int (GetAdaptiveRateLimit default_adaptive_config
             [''example.com'' \<mapsto> float64_round (3 / 10)] 5 ''example.com'')
     \<noteq> max (5 * GetAdaptiveMultiplier default_adaptive_config
                      [''example.com'' \<mapsto> float64_round (3 / 10)] ''example.com'')
            (5 * AdaptiveAttackMultiplier default_adaptive_config)
   \<and> of_int (GetAdaptiveRateLimit default_adaptive_config
             [''example.com'' \<mapsto> float64_round (3 / 10)] 5 ''example.com'')
     \<noteq> max (f64_mul (float64_of_int 5) (GetAdaptiveMultiplier default_adaptive_config
                      [''example.com'' \<mapsto> float64_round (3 / 10)] ''example.com''))
            (f64_mul (float64_of_int 5) (AdaptiveAttackMultiplier default_adaptive_config))"
  by code_simp

text \<open>
  Claim C2, amended: for every base limit and every domain, with adaptive rate limiting
  enabled, \<open>GetAdaptiveRateLimit(base, domain)\<close> is
  \<open>int(max(float64(base) \<times> m, float64(base) \<times> attack_multiplier))\<close>, where \<open>m\<close> is
  the current adaptive multiplier of the domain (the base multiplier if the domain has
  none), both products are float64 products (the conversion of the base and each
  product rounded to the nearest float64), and \<open>int\<close> truncates towards zero.
\<close>

theorem C2_adaptive_rate_limit:
  assumes "AdaptiveRateLimitEnabled cfg"
  shows "GetAdaptiveRateLimit cfg ms baseLimit domainName =
     int_of_float64
       (max (f64_mul (float64_of_int baseLimit) (GetAdaptiveMultiplier cfg ms domainName))
            (f64_mul (float64_of_int baseLimit) (AdaptiveAttackMultiplier cfg)))"
  using assms by (simp add: GetAdaptiveRateLimit_def Let_def max_def)

text \<open>
  With the default settings, after one tick under a raw attack the multiplier is the
  float64 value of 0.7, and a base limit of 90 gives 62: the float64 product is
  62.99999999999999, not 63.
\<close>

lemma raw_tick_90:
  "int_of_float64
       (max (f64_mul (float64_of_int 90)
               (GetAdaptiveMultiplier default_adaptive_config
                  (adaptive_tick_domain default_adaptive_config ''example.com''
                     \<lparr>Stage = 2, Stage2Difficulty = 5, RawAttack = True, BypassAttack = False\<rparr>
                     Map.empty)
                  ''example.com''))
            (f64_mul (float64_of_int 90) (AdaptiveAttackMultiplier default_adaptive_config)))
     = 62"
  by code_simp

theorem C2_adaptive_rate_limit_witness:
  "GetAdaptiveRateLimit default_adaptive_config
     (adaptive_tick_domain default_adaptive_config ''example.com''
        \<lparr>Stage = 2, Stage2Difficulty = 5, RawAttack = True, BypassAttack = False\<rparr> Map.empty)
     90 ''example.com'' = 62"
proof -
  have "AdaptiveRateLimitEnabled default_adaptive_config"
    by (simp add: default_adaptive_config_def)
  from C2_adaptive_rate_limit [OF this] raw_tick_90 show ?thesis by simp
qed

text \<open>
  The two conversions at the ends of the integer range: \<open>float64(2 ^ 63 - 1)\<close> is
  \<open>2 ^ 63\<close>, which does not fit an \<open>int\<close>, and \<open>float64(2 ^ 53 + 1)\<close> is \<open>2 ^ 53\<close>.
\<close>

lemma GetAdaptiveRateLimit_MaxInt64:
  "GetAdaptiveRateLimit default_adaptive_config Map.empty 9223372036854775807 ''example.com''
     = - 9223372036854775808"
  by code_simp

lemma float64_of_int_rounds: "float64_of_int (2 ^ 53 + 1) = 2 ^ 53"
  by code_simp

section \<open>Trust after a single successful request (C3)\<close>

text \<open>
  \<open>CheckWhitelist\<close> reports an IP as whitelisted as soon as \<open>IPWhitelist\<close> holds an
  entry for it that was seen in the last 24 hours. \<open>UpdateWhitelistLearning\<close> stores
  the entry it creates for a new IP in that same map, also in the branch its comment
  describes as \<open>Not enough data, keep tracking\<close>; the request count is not looked at
  by \<open>CheckWhitelist\<close>.
\<close>

lemma single_success_trusted_general:
  assumes "AdaptiveLearningEnabled cfg" and "wl ip = None"
    and "- (2 ^ 63) \<le> now' - now" and "now' - now \<le> 24 * Hour"
  shows "CheckWhitelist cfg now' (UpdateWhitelistLearning cfg now ip success wl) ip"
proof -
  have "time_Sub now' now \<le> 24 * Hour"
    using assms(3,4) by (simp add: time_Sub_def Hour_def Second_def)
  then show ?thesis
    using assms(1,2)
    by (simp add: CheckWhitelist_def UpdateWhitelistLearning_def learned_entry_def Let_def)
qed

text \<open>
  Claim C3 says that after exactly one \<open>UpdateWhitelistLearning(ip, success=true)\<close>
  for an IP without an entry \<open>CheckWhitelist(ip)\<close> returns false. On the empty trust
  list with the default settings it returns true.
\<close>

theorem C3_single_success_trusted:
  "CheckWhitelist default_adaptive_config 0
     (UpdateWhitelistLearning default_adaptive_config 0 ''198.51.100.7'' True Map.empty)
     ''198.51.100.7''"
  by (simp add: CheckWhitelist_def UpdateWhitelistLearning_def learned_entry_def
      default_adaptive_config_def time_Sub_def Hour_def Second_def Let_def)

section \<open>Demotion of low-rate entries (C6)\<close>

text \<open>
  On every history the request count of an entry is at least 1, so the divisor
  \<open>float64(entry.RequestCount)\<close> of the rate update is never zero.
\<close>

lemma learned_entry_count:
  "RequestCount (learned_entry now ip success wl)
     = (case wl ip of None \<Rightarrow> 0 | Some e \<Rightarrow> RequestCount e) + 1"
  by (simp add: learned_entry_def Let_def split: option.splits)

lemma whitelist_step_count_pos:
  assumes "\<forall>ip e. wl ip = Some e \<longrightarrow> 1 \<le> RequestCount e"
    and "whitelist_step cfg c wl ip' = Some e"
  shows "1 \<le> RequestCount e"
proof (cases c)
  case (Learn now ip success)
  show ?thesis
  proof (cases "ip' = ip \<and> AdaptiveLearningEnabled cfg")
    case True
    have "1 \<le> RequestCount (learned_entry now ip success wl)"
      using assms(1) by (fastforce simp: learned_entry_count split: option.splits)
    moreover have "e = learned_entry now ip success wl"
      using assms(2) Learn True
      by (auto simp: UpdateWhitelistLearning_def Let_def split: if_splits)
    ultimately show ?thesis by simp
  next
    case False
    then have "wl ip' = Some e"
      using assms(2) Learn
      by (auto simp: UpdateWhitelistLearning_def Let_def split: if_splits)
    then show ?thesis using assms(1) by blast
  qed
next
  case (Cleanup now)
  then have "wl ip' = Some e"
    using assms(2) by (simp add: CleanupWhitelist_def split: option.splits if_splits)
  then show ?thesis using assms(1) by blast
qed

lemma whitelist_run_count_pos_gen:
  "\<forall>ip e. wl ip = Some e \<longrightarrow> 1 \<le> RequestCount e
     \<Longrightarrow> whitelist_run cfg cs wl ip' = Some e \<Longrightarrow> 1 \<le> RequestCount e"
proof (induction cs arbitrary: wl)
  case Nil
  then show ?case by simp
next
  case (Cons c cs)
  have "\<forall>ip e. whitelist_step cfg c wl ip = Some e \<longrightarrow> 1 \<le> RequestCount e"
    using whitelist_step_count_pos [OF Cons.prems(1)] by blast
  then show ?case
    using Cons.IH [of "whitelist_step cfg c wl"] Cons.prems(2) by simp
qed

lemma whitelist_run_count_pos:
  "whitelist_run cfg cs Map.empty ip = Some e \<Longrightarrow> 1 \<le> RequestCount e"
  by (rule whitelist_run_count_pos_gen [of Map.empty]) simp_all

lemma half_le_threshold: "1 / 2 \<le> float64_round (95 / 100)"
proof -
  have "float64_round (1 / 2) \<le> float64_round (95 / 100)"
    by (rule float64_round_mono) simp
  then show ?thesis
    using float64_exact_literals(2) by (simp add: is_float64_def)
qed

lemma UpdateWhitelistLearning_at_ip:
  assumes "AdaptiveLearningEnabled cfg"
  shows "UpdateWhitelistLearning cfg now ip success wl ip =
           (if 10 \<le> RequestCount (learned_entry now ip success wl)
                \<and> SuccessRate (learned_entry now ip success wl) < 1 / 2
            then None else Some (learned_entry now ip success wl))"
proof -
  define entry where "entry = learned_entry now ip success wl"
  have "UpdateWhitelistLearning cfg now ip success wl ip =
      (if RequestCount entry \<ge> 100 \<and> SuccessRate entry \<ge> float64_round (95 / 100) then Some entry
       else if RequestCount entry < 10 then Some entry
       else if SuccessRate entry < 1 / 2 then None
       else Some entry)"
    using assms unfolding UpdateWhitelistLearning_def Let_def entry_def by simp
  also have "\<dots> = (if 10 \<le> RequestCount entry \<and> SuccessRate entry < 1 / 2 then None else Some entry)"
    using half_le_threshold by auto
  finally show ?thesis unfolding entry_def .
qed

lemma UpdateWhitelistLearning_other_ip:
  "ip' \<noteq> ip \<Longrightarrow> UpdateWhitelistLearning cfg now ip success wl ip' = wl ip'"
  by (simp add: UpdateWhitelistLearning_def Let_def)

lemma UpdateWhitelistLearning_bad_entry_old:
  assumes "UpdateWhitelistLearning cfg now ip success wl ip' = Some e"
    and "10 \<le> RequestCount e" and "SuccessRate e < 1 / 2"
  shows "wl ip' = Some e"
proof (cases "AdaptiveLearningEnabled cfg")
  case False
  with assms(1) show ?thesis by (simp add: UpdateWhitelistLearning_def)
next
  case True
  show ?thesis
  proof (cases "ip' = ip")
    case False
    with assms(1) show ?thesis by (simp add: UpdateWhitelistLearning_other_ip)
  next
    case same: True
    from assms have False
      unfolding same UpdateWhitelistLearning_at_ip [OF True] by (auto split: if_splits)
    then show ?thesis ..
  qed
qed

lemma CleanupWhitelist_entry_old:
  "CleanupWhitelist now wl ip' = Some e \<Longrightarrow> wl ip' = Some e"
  by (simp add: CleanupWhitelist_def split: option.splits if_splits)

lemma whitelist_step_bad_entry_old:
  "whitelist_step cfg c wl ip' = Some e \<Longrightarrow> 10 \<le> RequestCount e \<Longrightarrow> SuccessRate e < 1 / 2
     \<Longrightarrow> wl ip' = Some e"
  by (cases c) (auto dest: UpdateWhitelistLearning_bad_entry_old CleanupWhitelist_entry_old)

lemma whitelist_run_bad_entry_old:
  "whitelist_run cfg cs wl ip' = Some e \<Longrightarrow> 10 \<le> RequestCount e \<Longrightarrow> SuccessRate e < 1 / 2
     \<Longrightarrow> wl ip' = Some e"
proof (induction cs arbitrary: wl)
  case Nil
  then show ?case by simp
next
  case (Cons c cs)
  from Cons.prems have "whitelist_step cfg c wl ip' = Some e"
    using Cons.IH [of "whitelist_step cfg c wl"] by simp
  then show ?case
    using Cons.prems(2,3) by (rule whitelist_step_bad_entry_old)
qed

lemma whitelist_no_low_rate_entry:
  assumes "UpdateWhitelistLearning cfg now ip success (whitelist_run cfg cs Map.empty) ip' = Some e"
  shows "\<not> (10 \<le> RequestCount e \<and> SuccessRate e < 1 / 2)"
proof
  assume bad: "10 \<le> RequestCount e \<and> SuccessRate e < 1 / 2"
  then have "whitelist_run cfg cs Map.empty ip' = Some e"
    using UpdateWhitelistLearning_bad_entry_old [OF assms] by blast
  then have "Map.empty ip' = Some e"
    using bad whitelist_run_bad_entry_old by blast
  then show False by simp
qed

text \<open>
  Claim C6: the trust list starts empty and is changed only by
  \<open>UpdateWhitelistLearning\<close> and \<open>CleanupWhitelist\<close>. After any call of
  \<open>UpdateWhitelistLearning\<close> that follows any history of such calls, no entry of the
  list has a request count of at least 10 and a success rate below 0.5. With learning
  enabled, the entry of the IP just updated is deleted exactly when its updated count
  and rate meet that condition, and is the updated entry otherwise; the entries of all
  other IPs are as they were.
\<close>

theorem C6_low_rate_entry_deleted:
  "(\<forall>ip' e. UpdateWhitelistLearning cfg now ip success (whitelist_run cfg cs Map.empty) ip' = Some e
        \<longrightarrow> \<not> (10 \<le> RequestCount e \<and> SuccessRate e < 1 / 2))
   \<and> (AdaptiveLearningEnabled cfg \<longrightarrow>
        UpdateWhitelistLearning cfg now ip success (whitelist_run cfg cs Map.empty) ip =
          (if 10 \<le> RequestCount (learned_entry now ip success (whitelist_run cfg cs Map.empty))
               \<and> SuccessRate (learned_entry now ip success (whitelist_run cfg cs Map.empty)) < 1 / 2
           then None
           else Some (learned_entry now ip success (whitelist_run cfg cs Map.empty))))
   \<and> (\<forall>ip'. ip' \<noteq> ip \<longrightarrow>
        UpdateWhitelistLearning cfg now ip success (whitelist_run cfg cs Map.empty) ip'
          = whitelist_run cfg cs Map.empty ip')"
  using whitelist_no_low_rate_entry UpdateWhitelistLearning_at_ip UpdateWhitelistLearning_other_ip
  by blast

text \<open>
  The witness: an IP with five failed requests followed by six successful ones, and one
  successful request of another IP. A further failure of the first IP brings its count
  to 12 with six successes; the float64 rate is 0.49999999999999994, just below 0.5,
  and the entry is deleted. The entry of the other IP stays.
\<close>

theorem C6_low_rate_entry_deleted_witness:
  "UpdateWhitelistLearning default_adaptive_config 13 ''198.51.100.7'' False
     (whitelist_run default_adaptive_config
        [Learn 1 ''203.0.113.9'' True,
         Learn 2 ''198.51.100.7'' False, Learn 3 ''198.51.100.7'' False,
         Learn 4 ''198.51.100.7'' False, Learn 5 ''198.51.100.7'' False,
         Learn 6 ''198.51.100.7'' False, Learn 7 ''198.51.100.7'' True,
         Learn 8 ''198.51.100.7'' True, Learn 9 ''198.51.100.7'' True,
         Learn 10 ''198.51.100.7'' True, Learn 11 ''198.51.100.7'' True,
         Learn 12 ''198.51.100.7'' True] Map.empty)
     ''198.51.100.7'' = None
   \<and> UpdateWhitelistLearning default_adaptive_config 13 ''198.51.100.7'' False
     (whitelist_run default_adaptive_config
        [Learn 1 ''203.0.113.9'' True,
         Learn 2 ''198.51.100.7'' False, Learn 3 ''198.51.100.7'' False,
         Learn 4 ''198.51.100.7'' False, Learn 5 ''198.51.100.7'' False,
         Learn 6 ''198.51.100.7'' False, Learn 7 ''198.51.100.7'' True,
         Learn 8 ''198.51.100.7'' True, Learn 9 ''198.51.100.7'' True,
         Learn 10 ''198.51.100.7'' True, Learn 11 ''198.51.100.7'' True,
         Learn 12 ''198.51.100.7'' True] Map.empty)
     ''203.0.113.9''
     = Some \<lparr>WIP = ''203.0.113.9'', AddedAt = 1, RequestCount = 1, SuccessRate = 1, LastSeen = 1\<rparr>
   \<and> \<not> (10 \<le> RequestCount \<lparr>WIP = ''203.0.113.9'', AddedAt = 1, RequestCount = 1, SuccessRate = 1, LastSeen = 1\<rparr>
          \<and> SuccessRate \<lparr>WIP = ''203.0.113.9'', AddedAt = 1, RequestCount = 1, SuccessRate = 1, LastSeen = 1\<rparr> < 1 / 2)"
proof -
  let ?cs = "[Learn 1 ''203.0.113.9'' True,
         Learn 2 ''198.51.100.7'' False, Learn 3 ''198.51.100.7'' False,
         Learn 4 ''198.51.100.7'' False, Learn 5 ''198.51.100.7'' False,
         Learn 6 ''198.51.100.7'' False, Learn 7 ''198.51.100.7'' True,
         Learn 8 ''198.51.100.7'' True, Learn 9 ''198.51.100.7'' True,
         Learn 10 ''198.51.100.7'' True, Learn 11 ''198.51.100.7'' True,
         Learn 12 ''198.51.100.7'' True]"
  let ?wl = "whitelist_run default_adaptive_config ?cs Map.empty"
  let ?e = "\<lparr>WIP = ''203.0.113.9'', AddedAt = 1, RequestCount = 1, SuccessRate = 1, LastSeen = 1\<rparr>"
  have entry: "learned_entry 13 ''198.51.100.7'' False ?wl
     = \<lparr>WIP = ''198.51.100.7'', AddedAt = 2, RequestCount = 12,
         SuccessRate = 9007199254740991 / 18014398509481984, LastSeen = 13\<rparr>"
    by code_simp
  have other: "?wl ''203.0.113.9'' = Some ?e"
    by code_simp
  have enabled: "AdaptiveLearningEnabled default_adaptive_config"
    by (simp add: default_adaptive_config_def)
  note inst = C6_low_rate_entry_deleted [where cfg = default_adaptive_config and now = 13
      and ip = "''198.51.100.7''" and success = False and cs = ?cs]
  from inst enabled have
    "UpdateWhitelistLearning default_adaptive_config 13 ''198.51.100.7'' False ?wl ''198.51.100.7'' =
      (if 10 \<le> RequestCount (learned_entry 13 ''198.51.100.7'' False ?wl)
           \<and> SuccessRate (learned_entry 13 ''198.51.100.7'' False ?wl) < 1 / 2
       then None else Some (learned_entry 13 ''198.51.100.7'' False ?wl))"
    by blast
  then have A: "UpdateWhitelistLearning default_adaptive_config 13 ''198.51.100.7'' False ?wl
      ''198.51.100.7'' = None"
    unfolding entry by simp
  from inst have "UpdateWhitelistLearning default_adaptive_config 13 ''198.51.100.7'' False ?wl
      ''203.0.113.9'' = ?wl ''203.0.113.9''"
    by simp
  then have B: "UpdateWhitelistLearning default_adaptive_config 13 ''198.51.100.7'' False ?wl
      ''203.0.113.9'' = Some ?e"
    unfolding other .
  from inst B have C: "\<not> (10 \<le> RequestCount ?e \<and> SuccessRate ?e < 1 / 2)"
    by blast
  from A B C show ?thesis by blast
qed

section \<open>Multiplier update tick (C7)\<close>

text \<open>
  With an attack multiplier of 0.9, which the loader accepts, a tick under a raw attack
  takes the multiplier of a fresh domain from 1.0 to \<open>0.9 \<times> 1.5\<close>, above 1.0; and a
  tick without attack leaves that multiplier where it is, because recovery is guarded
  by \<open>currentMultiplier < AdaptiveBaseMultiplier\<close>, while the formula of the claim
  gives 1.0.
\<close>

theorem C7_counterexample:
  "1 < GetAdaptiveMultiplier
         (default_adaptive_config\<lparr>AdaptiveAttackMultiplier := float64_round (9 / 10)\<rparr>)
         (adaptive_tick_domain
            (default_adaptive_config\<lparr>AdaptiveAttackMultiplier := float64_round (9 / 10)\<rparr>)
            ''example.com''
            \<lparr>Stage = 2, Stage2Difficulty = 5, RawAttack = True, BypassAttack = False\<rparr> Map.empty)
         ''example.com''
   \<and> GetAdaptiveMultiplier
         (default_adaptive_config\<lparr>AdaptiveAttackMultiplier := float64_round (9 / 10)\<rparr>)
         (adaptive_tick_domain
            (default_adaptive_config\<lparr>AdaptiveAttackMultiplier := float64_round (9 / 10)\<rparr>)
            ''example.com''
            \<lparr>Stage = 1, Stage2Difficulty = 5, RawAttack = False, BypassAttack = False\<rparr>
            (adaptive_tick_domain
            (default_adaptive_config\<lparr>AdaptiveAttackMultiplier := float64_round (9 / 10)\<rparr>)
            ''example.com''
            \<lparr>Stage = 2, Stage2Difficulty = 5, RawAttack = True, BypassAttack = False\<rparr> Map.empty))
         ''example.com''
       \<noteq> min (f64_add (GetAdaptiveMultiplier
            (default_adaptive_config\<lparr>AdaptiveAttackMultiplier := float64_round (9 / 10)\<rparr>)
            (adaptive_tick_domain
            (default_adaptive_config\<lparr>AdaptiveAttackMultiplier := float64_round (9 / 10)\<rparr>)
            ''example.com''
            \<lparr>Stage = 2, Stage2Difficulty = 5, RawAttack = True, BypassAttack = False\<rparr> Map.empty)
            ''example.com'')
                 (f64_mul (f64_sub 1 (GetAdaptiveMultiplier
            (default_adaptive_config\<lparr>AdaptiveAttackMultiplier := float64_round (9 / 10)\<rparr>)
            (adaptive_tick_domain
            (default_adaptive_config\<lparr>AdaptiveAttackMultiplier := float64_round (9 / 10)\<rparr>)
            ''example.com''
            \<lparr>Stage = 2, Stage2Difficulty = 5, RawAttack = True, BypassAttack = False\<rparr> Map.empty)
            ''example.com''))
                          (AdaptiveDecayRate
                             (default_adaptive_config\<lparr>AdaptiveAttackMultiplier := float64_round (9 / 10)\<rparr>)))) 1"
  by code_simp

lemma GetAdaptiveMultiplier_current:
  "AdaptiveRateLimitEnabled cfg \<Longrightarrow>
     (case ms domainName of None \<Rightarrow> AdaptiveBaseMultiplier cfg | Some m \<Rightarrow> m)
       = GetAdaptiveMultiplier cfg ms domainName"
  by (simp add: GetAdaptiveMultiplier_def)

lemma tick_formula:
  assumes "AdaptiveRateLimitEnabled cfg" and "AdaptiveBaseMultiplier cfg = 1"
    and "GetAdaptiveMultiplier cfg ms domainName \<le> 1"
  shows "GetAdaptiveMultiplier cfg (adaptive_tick_domain cfg domainName dd ms) domainName =
     (if BypassAttack dd then
        max (f64_mul (GetAdaptiveMultiplier cfg ms domainName) (AdaptiveAttackMultiplier cfg))
            (AdaptiveAttackMultiplier cfg)
      else if RawAttack dd then
        max (f64_mul (GetAdaptiveMultiplier cfg ms domainName) (float64_round (7 / 10)))
            (f64_mul (AdaptiveAttackMultiplier cfg) (3 / 2))
      else
        min (f64_add (GetAdaptiveMultiplier cfg ms domainName)
               (f64_mul (f64_sub 1 (GetAdaptiveMultiplier cfg ms domainName))
                        (AdaptiveDecayRate cfg))) 1)"
proof -
  define m where "m = GetAdaptiveMultiplier cfg ms domainName"
  have cur: "(case ms domainName of None \<Rightarrow> AdaptiveBaseMultiplier cfg | Some m \<Rightarrow> m) = m"
    using GetAdaptiveMultiplier_current [OF assms(1)] by (simp add: m_def)
  have m1: "m \<le> 1" using assms(3) by (simp add: m_def)
  have get: "\<And>v. GetAdaptiveMultiplier cfg (ms(domainName \<mapsto> v)) domainName = v"
    using assms(1) by (simp add: GetAdaptiveMultiplier_def)
  have "f64_add 1 (f64_mul (f64_sub 1 1) (AdaptiveDecayRate cfg)) = 1"
    by (simp add: f64_add_def f64_mul_def f64_sub_def float64_round_0 float64_round_1)
  then have same: "m = 1 \<Longrightarrow> GetAdaptiveMultiplier cfg ms domainName
      = min (f64_add m (f64_mul (f64_sub 1 m) (AdaptiveDecayRate cfg))) 1"
    by (simp add: m_def)
  show ?thesis
    unfolding adaptive_tick_domain_def UpdateAdaptiveMultiplier_def Let_def cur m_def [symmetric]
    using assms(1,2) m1 get same
    by (auto simp: max_def min_def)
qed

lemma tick_range:
  fixes m a d :: rat
  assumes "0 \<le> a" and "a \<le> 2 / 3" and "0 \<le> d" and "a \<le> m" and "m \<le> 1"
    and "is_float64 a"
  shows "a \<le> max (f64_mul m a) a \<and> max (f64_mul m a) a \<le> 1"
    and "a \<le> max (f64_mul m (float64_round (7 / 10))) (f64_mul a (3 / 2))
         \<and> max (f64_mul m (float64_round (7 / 10))) (f64_mul a (3 / 2)) \<le> 1"
    and "a \<le> min (f64_add m (f64_mul (f64_sub 1 m) d)) 1
         \<and> min (f64_add m (f64_mul (f64_sub 1 m) d)) 1 \<le> 1"
proof -
  have ra: "float64_round a = a" using assms(6) by (simp add: is_float64_def)
  have le1: "\<And>x. x \<le> 1 \<Longrightarrow> float64_round x \<le> 1"
    using float64_round_mono [of _ 1] by (simp add: float64_round_1)
  have ge0: "\<And>x. 0 \<le> x \<Longrightarrow> 0 \<le> float64_round x"
    by (rule float64_round_nonneg)
  have gea: "\<And>x. a \<le> x \<Longrightarrow> a \<le> float64_round x"
    using float64_round_mono [of a] ra by simp
  have "m * a \<le> 1 * a"
    using assms(1,5) by (intro mult_right_mono) simp_all
  then have "m * a \<le> 1" using assms(2) by simp
  then have "f64_mul m a \<le> 1" unfolding f64_mul_def by (rule le1)
  then show "a \<le> max (f64_mul m a) a \<and> max (f64_mul m a) a \<le> 1"
    using assms(2) by (simp add: max_def)
  have c07: "float64_round (7 / 10) \<le> 1" by (rule le1) simp
  have c07': "0 \<le> float64_round (7 / 10)" by (rule ge0) simp
  have m0: "0 \<le> m" using assms(1,4) by simp
  have "m * float64_round (7 / 10) \<le> 1 * 1"
    using assms(5) c07 c07' m0 by (intro mult_mono) simp_all
  then have r1: "f64_mul m (float64_round (7 / 10)) \<le> 1"
    unfolding f64_mul_def by (intro le1) simp
  have r2: "f64_mul a (3 / 2) \<le> 1"
    unfolding f64_mul_def using assms(2) by (intro le1) simp
  have r3: "a \<le> f64_mul a (3 / 2)"
    unfolding f64_mul_def using assms(1) by (intro gea) simp
  from r1 r2 r3
  show "a \<le> max (f64_mul m (float64_round (7 / 10))) (f64_mul a (3 / 2))
         \<and> max (f64_mul m (float64_round (7 / 10))) (f64_mul a (3 / 2)) \<le> 1"
    by (simp add: max_def)
  have "0 \<le> f64_sub 1 m" unfolding f64_sub_def using assms(5) by (intro ge0) simp
  then have "0 \<le> f64_sub 1 m * d" using assms(3) by simp
  then have "0 \<le> f64_mul (f64_sub 1 m) d" unfolding f64_mul_def by (rule ge0)
  then have "a \<le> m + f64_mul (f64_sub 1 m) d" using assms(4) by simp
  then have "a \<le> f64_add m (f64_mul (f64_sub 1 m) d)" unfolding f64_add_def by (rule gea)
  then show "a \<le> min (f64_add m (f64_mul (f64_sub 1 m) d)) 1
         \<and> min (f64_add m (f64_mul (f64_sub 1 m) d)) 1 \<le> 1"
    using assms(2) by (simp add: min_def)
qed

text \<open>
  Claim C7, amended: with the base multiplier 1.0, for every domain whose current
  multiplier \<open>m\<close> is at most 1.0, one update tick sets the multiplier to
  \<open>max(m \<times> attack_multiplier, attack_multiplier)\<close> when a bypass attack is active, to
  \<open>max(m \<times> 0.7, attack_multiplier \<times> 1.5)\<close> when only a raw attack is active, and to
  \<open>min(m + (1.0 - m) \<times> decay_rate, 1.0)\<close> when no attack is active, every operation
  being the float64 operation of the code; if moreover
  \<open>0 \<le> attack_multiplier \<le> 2/3\<close>, \<open>decay_rate \<ge> 0\<close> and \<open>m \<ge> attack_multiplier\<close>, the
  new multiplier lies in \<open>[attack_multiplier, 1.0]\<close> again (the attack multiplier being
  a float64 value, as every value of the variable is).
\<close>

theorem C7_multiplier_tick:
  assumes "AdaptiveRateLimitEnabled cfg" and "AdaptiveBaseMultiplier cfg = 1"
    and "GetAdaptiveMultiplier cfg ms domainName \<le> 1"
  shows "GetAdaptiveMultiplier cfg (adaptive_tick_domain cfg domainName dd ms) domainName =
           (if BypassAttack dd then
              max (f64_mul (GetAdaptiveMultiplier cfg ms domainName) (AdaptiveAttackMultiplier cfg))
                  (AdaptiveAttackMultiplier cfg)
            else if RawAttack dd then
              max (f64_mul (GetAdaptiveMultiplier cfg ms domainName) (float64_round (7 / 10)))
                  (f64_mul (AdaptiveAttackMultiplier cfg) (3 / 2))
            else
              min (f64_add (GetAdaptiveMultiplier cfg ms domainName)
                     (f64_mul (f64_sub 1 (GetAdaptiveMultiplier cfg ms domainName))
                              (AdaptiveDecayRate cfg))) 1)
         \<and> (0 \<le> AdaptiveAttackMultiplier cfg \<and> AdaptiveAttackMultiplier cfg \<le> 2 / 3
              \<and> 0 \<le> AdaptiveDecayRate cfg
              \<and> AdaptiveAttackMultiplier cfg \<le> GetAdaptiveMultiplier cfg ms domainName
              \<and> is_float64 (AdaptiveAttackMultiplier cfg)
            \<longrightarrow> AdaptiveAttackMultiplier cfg
                  \<le> GetAdaptiveMultiplier cfg (adaptive_tick_domain cfg domainName dd ms) domainName
                \<and> GetAdaptiveMultiplier cfg (adaptive_tick_domain cfg domainName dd ms) domainName \<le> 1)"
proof (intro conjI impI)
  show f: "GetAdaptiveMultiplier cfg (adaptive_tick_domain cfg domainName dd ms) domainName =
           (if BypassAttack dd then
              max (f64_mul (GetAdaptiveMultiplier cfg ms domainName) (AdaptiveAttackMultiplier cfg))
                  (AdaptiveAttackMultiplier cfg)
            else if RawAttack dd then
              max (f64_mul (GetAdaptiveMultiplier cfg ms domainName) (float64_round (7 / 10)))
                  (f64_mul (AdaptiveAttackMultiplier cfg) (3 / 2))
            else
              min (f64_add (GetAdaptiveMultiplier cfg ms domainName)
                     (f64_mul (f64_sub 1 (GetAdaptiveMultiplier cfg ms domainName))
                              (AdaptiveDecayRate cfg))) 1)"
    by (rule tick_formula [OF assms])
  assume h: "0 \<le> AdaptiveAttackMultiplier cfg \<and> AdaptiveAttackMultiplier cfg \<le> 2 / 3
              \<and> 0 \<le> AdaptiveDecayRate cfg
              \<and> AdaptiveAttackMultiplier cfg \<le> GetAdaptiveMultiplier cfg ms domainName
              \<and> is_float64 (AdaptiveAttackMultiplier cfg)"
  note r = tick_range [of "AdaptiveAttackMultiplier cfg" "AdaptiveDecayRate cfg"
      "GetAdaptiveMultiplier cfg ms domainName"]
  show "AdaptiveAttackMultiplier cfg
          \<le> GetAdaptiveMultiplier cfg (adaptive_tick_domain cfg domainName dd ms) domainName"
    unfolding f using h assms(3) r by (simp split: if_splits)
  show "GetAdaptiveMultiplier cfg (adaptive_tick_domain cfg domainName dd ms) domainName \<le> 1"
    unfolding f using h assms(3) r by (simp split: if_splits)
qed

theorem C7_multiplier_tick_witness:
  "GetAdaptiveMultiplier default_adaptive_config
     (adaptive_tick_domain default_adaptive_config ''example.com''
        \<lparr>Stage = 2, Stage2Difficulty = 5, RawAttack = True, BypassAttack = False\<rparr> Map.empty)
     ''example.com'' = float64_round (7 / 10)
   \<and> AdaptiveAttackMultiplier default_adaptive_config \<le> float64_round (7 / 10)
   \<and> float64_round (7 / 10) \<le> 1"
proof -
  let ?dd = "\<lparr>Stage = 2, Stage2Difficulty = 5, RawAttack = True, BypassAttack = False\<rparr>"
  let ?m' = "GetAdaptiveMultiplier default_adaptive_config
     (adaptive_tick_domain default_adaptive_config ''example.com'' ?dd Map.empty) ''example.com''"
  have p1: "AdaptiveRateLimitEnabled default_adaptive_config"
    and p2: "AdaptiveBaseMultiplier default_adaptive_config = 1"
    and p3: "GetAdaptiveMultiplier default_adaptive_config Map.empty ''example.com'' \<le> 1"
    by (simp_all add: default_adaptive_config_def GetAdaptiveMultiplier_def)
  have q: "0 \<le> AdaptiveAttackMultiplier default_adaptive_config
      \<and> AdaptiveAttackMultiplier default_adaptive_config \<le> 2 / 3
      \<and> 0 \<le> AdaptiveDecayRate default_adaptive_config
      \<and> AdaptiveAttackMultiplier default_adaptive_config
          \<le> GetAdaptiveMultiplier default_adaptive_config Map.empty ''example.com''
      \<and> is_float64 (AdaptiveAttackMultiplier default_adaptive_config)"
    by code_simp
  have v: "(if BypassAttack ?dd then
              max (f64_mul (GetAdaptiveMultiplier default_adaptive_config Map.empty ''example.com'')
                     (AdaptiveAttackMultiplier default_adaptive_config))
                  (AdaptiveAttackMultiplier default_adaptive_config)
            else if RawAttack ?dd then
              max (f64_mul (GetAdaptiveMultiplier default_adaptive_config Map.empty ''example.com'')
                     (float64_round (7 / 10)))
                  (f64_mul (AdaptiveAttackMultiplier default_adaptive_config) (3 / 2))
            else
              min (f64_add (GetAdaptiveMultiplier default_adaptive_config Map.empty ''example.com'')
                     (f64_mul (f64_sub 1 (GetAdaptiveMultiplier default_adaptive_config Map.empty
                                            ''example.com''))
                              (AdaptiveDecayRate default_adaptive_config))) 1)
        = float64_round (7 / 10)"
    by code_simp
  from C7_multiplier_tick [OF p1 p2 p3, of ?dd] q v
  have "?m' = float64_round (7 / 10)"
    and "AdaptiveAttackMultiplier default_adaptive_config \<le> ?m' \<and> ?m' \<le> 1"
    by simp_all
  then show ?thesis by simp
qed

section \<open>Connection rate cap (C8)\<close>

lemma timestamps_at_increment_all:
  "timestamps_at (ConnectionRate (increment_all ts ip cl)) ip
     = timestamps_at (ConnectionRate cl) ip @ ts"
  by (induction ts arbitrary: cl) (simp_all add: IncrementConnection_def timestamps_at_def)

lemma CheckConnectionLimit_rate:
  assumes "MaxConnRatePerIP cfg
     \<le> int (length (filter (\<lambda>ts. time_Sub now ts < ConnectionRateWindow cfg)
                      (timestamps_at (ConnectionRate cl) ip)))"
  shows "\<not> fst (CheckConnectionLimit cfg now ip cl)"
  using assms by (simp add: CheckConnectionLimit_def Let_def)

text \<open>
  Claim C8: for every IP and every state of the limiter, after \<open>IncrementConnection\<close>
  has been called for the IP at the instants \<open>ts\<close>, if at least \<open>MaxConnRatePerIP\<close>
  of the recorded timestamps of the IP lie within \<open>ConnectionRateWindow\<close> before now
  (\<open>now.Sub(t) < ConnectionRateWindow\<close>), then \<open>CheckConnectionLimit(ip)\<close> returns
  false. The witness is the storm of the specification: 11 connections in half a second.
\<close>

theorem C8_rate_cap:
  assumes "MaxConnRatePerIP cfg
     \<le> int (length (filter (\<lambda>t. time_Sub now t < ConnectionRateWindow cfg)
                      (timestamps_at (ConnectionRate cl) ip @ ts)))"
  shows "\<not> fst (CheckConnectionLimit cfg now ip (increment_all ts ip cl))"
  by (rule CheckConnectionLimit_rate) (use assms in \<open>simp only: timestamps_at_increment_all\<close>)

theorem C8_rate_cap_witness:
  "\<not> fst (CheckConnectionLimit default_connection_config 900000000 ''203.0.113.9''
       (increment_all [0, 50000000, 100000000, 150000000, 200000000, 250000000, 300000000,
                       350000000, 400000000, 450000000, 500000000]
          ''203.0.113.9'' initial_ConnectionLimiter))"
  by (rule C8_rate_cap)
    (simp add: default_connection_config_def initial_ConnectionLimiter_def timestamps_at_def
      time_Sub_def Second_def)

section \<open>Counts of the current bucket (C10)\<close>

















end
